theory Spec2Isabelle
  imports Complex_Main "HOL-Library.Word" "HOL-Library.Char_ord" "HOL-Library.List_Lexorder"
begin

section \<open>Epoch and slot arithmetic (pkg/utils/eth2.go)\<close>

text \<open>
  \<^verbatim>\<open>beacon.Eth2Config\<close> is declared outside the files at hand; the five \<^verbatim>\<open>uint64\<close>
  fields below are the ones the functions of eth2.go read. Go's \<^verbatim>\<open>uint64\<close> arithmetic
  wraps around, so the fields are 64-bit words. Integer division by zero panics in Go:
  the functions that divide return \<open>None\<close> for the panic.
\<close>

type_synonym uint64 = "64 word"

record Eth2Config =
  GenesisEpoch :: uint64
  GenesisTime :: uint64
  SecondsPerSlot :: uint64
  SlotsPerEpoch :: uint64
  SecondsPerEpoch :: uint64

definition EpochAtTimestamp :: "Eth2Config \<Rightarrow> uint64 \<Rightarrow> uint64 option" where
  "EpochAtTimestamp config time =
     (if SecondsPerEpoch config = 0 then None
      else Some (GenesisEpoch config + (time - GenesisTime config) div SecondsPerEpoch config))"

definition SlotAtTimestamp :: "Eth2Config \<Rightarrow> uint64 \<Rightarrow> uint64 option" where
  "SlotAtTimestamp config time =
     (if SecondsPerSlot config = 0 then None
      else Some ((time - GenesisTime config) div SecondsPerSlot config))"

definition StartTimestampOfEpoch :: "Eth2Config \<Rightarrow> uint64 \<Rightarrow> uint64" where
  "StartTimestampOfEpoch config epoch =
     (epoch - GenesisEpoch config) * SecondsPerEpoch config + GenesisTime config"

definition TimestampOfSlot :: "Eth2Config \<Rightarrow> uint64 \<Rightarrow> uint64" where
  "TimestampOfSlot config slot = slot * SecondsPerSlot config + GenesisTime config"

definition StartSlotOfEpoch :: "Eth2Config \<Rightarrow> uint64 \<Rightarrow> uint64" where
  "StartSlotOfEpoch config epoch = SlotsPerEpoch config * epoch"

definition EndSlotOfEpoch :: "Eth2Config \<Rightarrow> uint64 \<Rightarrow> uint64" where
  "EndSlotOfEpoch config epoch = SlotsPerEpoch config * (epoch + 1) - 1"

text \<open>A configuration with the mainnet timing constants whose genesis epoch is 1.\<close>

definition config_genesis_epoch_1 :: Eth2Config where
  "config_genesis_epoch_1 =
     \<lparr>GenesisEpoch = 1, GenesisTime = 1606824023, SecondsPerSlot = 12,
      SlotsPerEpoch = 32, SecondsPerEpoch = 384\<rparr>"

text \<open>The mainnet configuration: genesis epoch 0.\<close>

definition config_mainnet :: Eth2Config where
  "config_mainnet =
     \<lparr>GenesisEpoch = 0, GenesisTime = 1606824023, SecondsPerSlot = 12,
      SlotsPerEpoch = 32, SecondsPerEpoch = 384\<rparr>"

section \<open>Reward split (pkg/utils/eth2.go)\<close>

text \<open>
  \<^verbatim>\<open>decimal.Decimal\<close> (shopspring/decimal) is an arbitrary-precision decimal number
  \<open>value * 10 ^ exp\<close>. The model keeps the number it denotes, a rational: \<^verbatim>\<open>Mul\<close>,
  \<^verbatim>\<open>Add\<close> and \<^verbatim>\<open>Sub\<close> are exact in the library, \<^verbatim>\<open>Div\<close> is
  \<^verbatim>\<open>DivRound\<close> at \<^verbatim>\<open>DivisionPrecision = 16\<close> digits after the decimal point and
  panics on a zero divisor (\<open>None\<close>).
\<close>

type_synonym Decimal = rat

definition DivisionPrecision :: nat where
  "DivisionPrecision = 16"

definition decimal_Mul :: "Decimal \<Rightarrow> Decimal \<Rightarrow> Decimal" where
  "decimal_Mul d d2 = d * d2"

definition decimal_Add :: "Decimal \<Rightarrow> Decimal \<Rightarrow> Decimal" where
  "decimal_Add d d2 = d + d2"

definition decimal_Sub :: "Decimal \<Rightarrow> Decimal \<Rightarrow> Decimal" where
  "decimal_Sub d d2 = d - d2"

definition decimal_IsPositive :: "Decimal \<Rightarrow> bool" where
  "decimal_IsPositive d = (0 < d)"

definition decimal_IsNegative :: "Decimal \<Rightarrow> bool" where
  "decimal_IsNegative d = (d < 0)"

definition decimal_GreaterThan :: "Decimal \<Rightarrow> Decimal \<Rightarrow> bool" where
  "decimal_GreaterThan d d2 = (d2 < d)"

text \<open>
  \<^verbatim>\<open>QuoRem\<close> truncates the quotient towards zero at the given number of digits and
  returns the remainder \<open>d - d2 * q\<close>.
\<close>

definition trunc_toward_zero :: "rat \<Rightarrow> int" where
  "trunc_toward_zero x = (if 0 \<le> x then \<lfloor>x\<rfloor> else \<lceil>x\<rceil>)"

definition decimal_QuoRem :: "Decimal \<Rightarrow> Decimal \<Rightarrow> nat \<Rightarrow> Decimal \<times> Decimal" where
  "decimal_QuoRem d d2 precision =
     (let q = of_int (trunc_toward_zero (d / d2 * 10 ^ precision)) / 10 ^ precision
      in (q, d - d2 * q))"

text \<open>
  \<^verbatim>\<open>DivRound\<close>: the truncated quotient, moved one unit of the last digit away from zero
  when twice the remainder, scaled, reaches the divisor.
\<close>

definition decimal_DivRound :: "Decimal \<Rightarrow> Decimal \<Rightarrow> nat \<Rightarrow> Decimal option" where
  "decimal_DivRound d d2 precision =
     (if d2 = 0 then None
      else (case decimal_QuoRem d d2 precision of (q, r) \<Rightarrow>
        if 2 * \<bar>r\<bar> * 10 ^ precision < \<bar>d2\<bar> then Some q
        else if sgn d * sgn d2 < 0 then Some (q - 1 / 10 ^ precision)
        else Some (q + 1 / 10 ^ precision)))"

definition decimal_Div :: "Decimal \<Rightarrow> Decimal \<Rightarrow> Decimal option" where
  "decimal_Div d d2 = decimal_DivRound d d2 DivisionPrecision"

definition Percent5Deci :: Decimal where
  "Percent5Deci = 5 / 100"

definition Percent90Deci :: Decimal where
  "Percent90Deci = 9 / 10"

definition StandardEffectiveBalanceDeci :: Decimal where
  "StandardEffectiveBalanceDeci = 32 * 10 ^ 18"

text \<open>
  \<^verbatim>\<open>GetUserNodePlatformReward\<close> returns (user reward, node reward, platform fee);
  \<open>None\<close> is the panic of \<^verbatim>\<open>Div\<close>.
\<close>

definition GetUserNodePlatformReward ::
  "Decimal \<Rightarrow> Decimal \<Rightarrow> (Decimal \<times> Decimal \<times> Decimal) option" where
  "GetUserNodePlatformReward nodeDepositAmount rewardDeci =
     (if \<not> decimal_IsPositive rewardDeci
         \<or> decimal_GreaterThan nodeDepositAmount StandardEffectiveBalanceDeci
      then Some (0, 0, 0)
      else
        let nodeDepositAmountDeci = nodeDepositAmount;
            standEffectiveBalanceDeci = StandardEffectiveBalanceDeci;
            platformFeeDeci = decimal_Mul rewardDeci Percent5Deci
        in (case decimal_Div
                   (decimal_Mul (decimal_Mul rewardDeci Percent90Deci) nodeDepositAmountDeci)
                   standEffectiveBalanceDeci of
              None \<Rightarrow> None
            | Some quo \<Rightarrow>
                let nodeRewardDeci = decimal_Add platformFeeDeci quo;
                    userRewardDeci =
                      decimal_Sub (decimal_Sub rewardDeci platformFeeDeci) nodeRewardDeci
                in Some (if decimal_IsNegative userRewardDeci then 0 else userRewardDeci,
                         nodeRewardDeci, platformFeeDeci)))"

section \<open>Errors\<close>

text \<open>
  Every \<^verbatim>\<open>error\<close> value the modelled functions build or pass on. An error handed back
  by a collaborator (an RPC client, a contract binding, the storage service, the file
  system) is \<open>ErrExternal\<close> with its message; \<^verbatim>\<open>fmt.Errorf\<close> with a \<^verbatim>\<open>%s\<close> of an
  inner error keeps the inner error as an argument.
\<close>

type_synonym bytes = "8 word list"

datatype error =
    ErrExternal string
  | ErrWaitTxRetryLimit bytes
  | ErrReceiptRetryLimit bytes
  | ErrTxFailed bytes
  | ErrMkdir error
  | ErrOpenFile error
  | ErrStat error
  | ErrSeek error
  | ErrRead error
  | ErrNewService string error
  | ErrStartService string error
  | ErrWrapped error string
  | ErrEventNotExist uint64
  | ErrDuplicateNode string
  | ErrProofListEmpty
  | ErrHasVoted error
  | ErrLockTxOpts error

text \<open>
  A run-time panic is not a returned error: a function that can panic either returns
  its results or panics with a message, and then its caller does not return either.
\<close>

datatype 'a exec = Returns 'a | Panics string

section \<open>Waiting for a transaction (pkg/utils/eth2.go, pkg/utils/utils.go)\<close>

definition RetryLimit :: nat where
  "RetryLimit = 600"

text \<open>\<^verbatim>\<open>RetryInterval = 6 * time.Second\<close>, in seconds.\<close>

definition RetryInterval :: nat where
  "RetryInterval = 6"

record Receipt =
  Status :: uint64
  BlockNumber :: nat

text \<open>
  The execution client, as the loop sees it: what the \<open>n\<close>-th call of
  \<^verbatim>\<open>TransactionByHash\<close> answers (an error, or whether the transaction is pending), and
  what the \<open>n\<close>-th call of \<^verbatim>\<open>TransactionReceipt\<close> answers (an error, or the receipt).
  Both loops make their \<open>n\<close>-th call when their counter is \<open>n\<close>.
\<close>

record EthClient =
  TransactionByHash :: "bytes \<Rightarrow> nat \<Rightarrow> error + bool"
  TransactionReceipt :: "bytes \<Rightarrow> nat \<Rightarrow> error + Receipt"

text \<open>\<^verbatim>\<open>big.Int.Uint64\<close>: the low 64 bits.\<close>

definition big_Uint64 :: "nat \<Rightarrow> uint64" where
  "big_Uint64 n = word_of_nat n"

text \<open>
  What a call of \<^verbatim>\<open>WaitTxOkCommon\<close> leaves behind: the two results, whether the deferred
  function sent on \<^verbatim>\<open>ShutdownRequestChannel\<close>, and the seconds slept.
\<close>

record WaitResult =
  blockNumber :: uint64
  err :: "error option"
  shutdown :: bool
  slept :: nat

text \<open>The inner loop (lines 260 to 277): the receipt, or the error of its retry limit.\<close>

function receiptLoop :: "EthClient \<Rightarrow> bytes \<Rightarrow> nat \<Rightarrow> nat \<Rightarrow> (error + Receipt) \<times> nat" where
  "receiptLoop client txHash subRetry sl =
     (if subRetry > RetryLimit then (Inl (ErrReceiptRetryLimit txHash), sl)
      else (case TransactionReceipt client txHash subRetry of
              Inl e \<Rightarrow> receiptLoop client txHash (subRetry + 1) (sl + RetryInterval)
            | Inr receipt \<Rightarrow> (Inr receipt, sl)))"
  by pat_completeness auto
termination
  by (relation "measure (\<lambda>(client, txHash, subRetry, sl). Suc RetryLimit - subRetry)") auto

text \<open>The outer loop (lines 232 to 287): block number, error, seconds slept.\<close>

function waitLoop :: "EthClient \<Rightarrow> bytes \<Rightarrow> nat \<Rightarrow> nat \<Rightarrow> uint64 \<times> error option \<times> nat" where
  "waitLoop client txHash retry sl =
     (if retry > RetryLimit then (0, Some (ErrWaitTxRetryLimit txHash), sl)
      else (case TransactionByHash client txHash retry of
              Inl e \<Rightarrow> waitLoop client txHash (retry + 1) (sl + RetryInterval)
            | Inr pending \<Rightarrow>
                if pending then waitLoop client txHash (retry + 1) (sl + RetryInterval)
                else (case receiptLoop client txHash 0 sl of
                        (Inl e, sl') \<Rightarrow> (0, Some e, sl')
                      | (Inr receipt, sl') \<Rightarrow>
                          if Status receipt = 1
                          then (big_Uint64 (BlockNumber receipt), None, sl')
                          else (0, Some (ErrTxFailed txHash), sl'))))"
  by pat_completeness auto
termination
  by (relation "measure (\<lambda>(client, txHash, retry, sl). Suc RetryLimit - retry)") auto

text \<open>
  The deferred function of lines 224 to 229 runs at every return and sends the shutdown
  request when the returned error is not nil.
\<close>

definition WaitTxOkCommon :: "EthClient \<Rightarrow> bytes \<Rightarrow> WaitResult" where
  "WaitTxOkCommon client txHash =
     (case waitLoop client txHash 0 0 of
        (bn, e, sl) \<Rightarrow> \<lparr>blockNumber = bn, err = e, shutdown = (e \<noteq> None), slept = sl\<rparr>)"

text \<open>
  The first call of \<^verbatim>\<open>TransactionByHash\<close> that answers "not pending" is call \<open>k\<close>; the
  first call of \<^verbatim>\<open>TransactionReceipt\<close> that answers with a receipt is call \<open>j\<close>.
\<close>

definition settledAt :: "EthClient \<Rightarrow> bytes \<Rightarrow> nat \<Rightarrow> bool" where
  "settledAt client txHash k =
     ((\<forall>i<k. TransactionByHash client txHash i \<noteq> Inr False)
      \<and> TransactionByHash client txHash k = Inr False)"

definition receiptAt :: "EthClient \<Rightarrow> bytes \<Rightarrow> nat \<Rightarrow> Receipt \<Rightarrow> bool" where
  "receiptAt client txHash j receipt =
     ((\<forall>i<j. isl (TransactionReceipt client txHash i))
      \<and> TransactionReceipt client txHash j = Inr receipt)"

section \<open>The last line of a file (pkg/utils/utils.go)\<close>

text \<open>
  The file system as \<^verbatim>\<open>ReadLastLine\<close> meets it: the errors of \<^verbatim>\<open>os.MkdirAll\<close>,
  \<^verbatim>\<open>os.OpenFile\<close> and \<^verbatim>\<open>f.Stat\<close>, if any, and the bytes of the file (empty when
  \<^verbatim>\<open>O_CREATE\<close> has just created it). \<^verbatim>\<open>Seek\<close> fails before the start of the file and
  \<^verbatim>\<open>Read\<close> fails at its end.
\<close>

record FileSystem =
  mkdirAll :: "error option"
  openFile :: "error option"
  stat :: "error option"
  content :: string

definition f_Seek_End :: "string \<Rightarrow> int \<Rightarrow> error + nat" where
  "f_Seek_End bs cursor =
     (if int (length bs) + cursor < 0 then Inl (ErrExternal ''invalid argument'')
      else Inr (nat (int (length bs) + cursor)))"

definition f_Read :: "string \<Rightarrow> nat \<Rightarrow> error + char" where
  "f_Read bs pos = (if pos < length bs then Inr (bs ! pos) else Inl (ErrExternal ''EOF''))"

text \<open>The loop of lines 229 to 251; \<open>cursor\<close> and \<open>line\<close> are its two variables.\<close>

function readLoop :: "string \<Rightarrow> int \<Rightarrow> string \<Rightarrow> error + string" where
  "readLoop bs cursor line =
     (let cursor' = cursor - 1 in
      case f_Seek_End bs cursor' of
        Inl e \<Rightarrow> Inl (ErrSeek e)
      | Inr pos \<Rightarrow>
          (case f_Read bs pos of
             Inl e \<Rightarrow> Inl (ErrRead e)
           | Inr c \<Rightarrow>
               if cursor' \<noteq> - 1 \<and> (c = CHR 0x0A \<or> c = CHR 0x0D) then Inr line
               else let line' = c # line in
                 if cursor' = - int (length bs) then Inr line'
                 else readLoop bs cursor' line'))"
  by pat_completeness auto
termination
  by (relation "measure (\<lambda>(bs, cursor, line). nat (int (length bs) + cursor))")
     (auto simp: f_Seek_End_def split: if_splits)

definition ReadLastLine :: "FileSystem \<Rightarrow> error + string" where
  "ReadLastLine fs =
     (case mkdirAll fs of Some e \<Rightarrow> Inl (ErrMkdir e) | None \<Rightarrow>
      case openFile fs of Some e \<Rightarrow> Inl (ErrOpenFile e) | None \<Rightarrow>
      case stat fs of Some e \<Rightarrow> Inl (ErrStat e) | None \<Rightarrow>
      if length (content fs) = 0 then Inr ''''
      else readLoop (content fs) 0 '''')"

text \<open>A file that opens without error and holds the given bytes.\<close>

definition file_of :: "string \<Rightarrow> FileSystem" where
  "file_of bs = \<lparr>mkdirAll = None, openFile = None, stat = None, content = bs\<rparr>"

definition is_newline :: "char \<Rightarrow> bool" where
  "is_newline c = (c = CHR 0x0A \<or> c = CHR 0x0D)"

section \<open>The service manager (service/service_manager.go)\<close>

text \<open>
  Modelled from the spec: \<^verbatim>\<open>config.Config\<close>, whose declaration is outside the files at
  hand. The spec's recognised options are \<^verbatim>\<open>Eth1Endpoint\<close>, \<^verbatim>\<open>Eth2Endpoint\<close>,
  \<^verbatim>\<open>GasLimit\<close>, \<^verbatim>\<open>MaxGasPrice\<close>, \<^verbatim>\<open>RunForEntrustedLsdNetwork\<close> and
  \<^verbatim>\<open>Contracts.LsdTokenAddress\<close>; \<^verbatim>\<open>Contracts\<close> is a struct held by value.
\<close>

record ContractsConfig =
  LsdTokenAddress :: string

record Config =
  Eth1Endpoint :: string
  Eth2Endpoint :: string
  GasLimit :: string
  MaxGasPrice :: string
  RunForEntrustedLsdNetwork :: bool
  Contracts :: ContractsConfig

text \<open>
  The manager holds a pointer to its configuration, and each service a pointer to its
  own: the \<^verbatim>\<open>Config\<close> structs live in a store from addresses to values, and
  \<open>nextRef\<close> is the next address the allocator hands out.
\<close>

type_synonym ref = nat

type_synonym address = "160 word"

text \<open>
  The fields of \<^verbatim>\<open>Service\<close> that the functions at hand read: the configuration pointer
  \<^verbatim>\<open>NewService\<close> received, and the state \<^verbatim>\<open>setMerkleRoot\<close> uses
  (\<open>keyPairAddress\<close> is \<^verbatim>\<open>s.keyPair.CommonAddress()\<close>).
\<close>

record Service =
  srvCfg :: ref
  networkCreateBlock :: uint64
  latestBlockOfSyncBlock :: uint64
  merkleRootDuEpochs :: uint64
  nodeRewardsFilePath :: string
  keyPairAddress :: address

datatype mgr_event =
    EvNewService ref
  | EvStart string Service
  | EvStop string Service

record ServiceManager =
  heap :: "ref \<Rightarrow> Config"
  nextRef :: ref
  cfg :: ref
  srvs :: "(string \<times> Service) list"
  events :: "mgr_event list"

text \<open>
  What the manager's collaborators answer: \<^verbatim>\<open>NewService\<close> (an error, or the service
  built for the configuration it is given), \<^verbatim>\<open>srv.Start\<close>, the factory binding and
  its \<^verbatim>\<open>GetEntrustedLsdTokens\<close>, and \<^verbatim>\<open>common.Address.String\<close>.
\<close>

record ManagerWorld =
  NewService :: "Config \<Rightarrow> error + Service"
  Start :: "Service \<Rightarrow> error option"
  NewLsdNetworkFactory :: "error option"
  GetEntrustedLsdTokens :: "error + address list"
  Address_String :: "address \<Rightarrow> string"

text \<open>
  \<^verbatim>\<open>xsync.MapOf\<close>, as a list of entries with one entry per key: \<^verbatim>\<open>Load\<close>,
  \<^verbatim>\<open>Store\<close> and \<^verbatim>\<open>Delete\<close>. \<^verbatim>\<open>Range\<close> visits the entries in the order of the list.
\<close>

definition srvs_Load :: "(string \<times> Service) list \<Rightarrow> string \<Rightarrow> Service option" where
  "srvs_Load al k = map_of al k"

fun srvs_Store :: "string \<Rightarrow> Service \<Rightarrow> (string \<times> Service) list \<Rightarrow> (string \<times> Service) list" where
  "srvs_Store k v [] = [(k, v)]"
| "srvs_Store k v ((k', v') # al) = (if k' = k then (k, v) # al else (k', v') # srvs_Store k v al)"

definition srvs_Delete :: "string \<Rightarrow> (string \<times> Service) list \<Rightarrow> (string \<times> Service) list" where
  "srvs_Delete k al = filter (\<lambda>(k', v'). k' \<noteq> k) al"

text \<open>
  \<^verbatim>\<open>srvConfig := *m.cfg\<close> copies the struct; the copy, with the token replaced, is stored
  at a fresh address, and that address is what \<^verbatim>\<open>NewService\<close> receives.
\<close>

definition newAndStartServiceFor ::
  "ManagerWorld \<Rightarrow> ServiceManager \<Rightarrow> string \<Rightarrow> ServiceManager \<times> (error + Service)" where
  "newAndStartServiceFor w m lsdToken =
     (let srvConfig = heap m (cfg m);
          srvConfig' = srvConfig\<lparr>Contracts := (Contracts srvConfig)\<lparr>LsdTokenAddress := lsdToken\<rparr>\<rparr>;
          p = nextRef m;
          m1 = m\<lparr>heap := (heap m)(p := srvConfig'), nextRef := p + 1,
                 events := events m @ [EvNewService p]\<rparr>
      in case NewService w srvConfig' of
           Inl e \<Rightarrow> (m1, Inl (ErrNewService lsdToken e))
         | Inr srv0 \<Rightarrow>
             let srv = srv0\<lparr>srvCfg := p\<rparr> in
             (case Start w srv of
                Some e \<Rightarrow> (m1, Inl (ErrStartService lsdToken e))
              | None \<Rightarrow>
                  (m1\<lparr>srvs := srvs_Store lsdToken srv (srvs m1),
                      events := events m1 @ [EvStart lsdToken srv]\<rparr>, Inr srv)))"

text \<open>The first loop of \<^verbatim>\<open>syncEntrustedLsdTokens\<close> (lines 133 to 140).\<close>

fun addLoop :: "ManagerWorld \<Rightarrow> string list \<Rightarrow> ServiceManager \<Rightarrow> ServiceManager \<times> error option" where
  "addLoop w [] m = (m, None)"
| "addLoop w (token # rest) m =
     (case srvs_Load (srvs m) token of
        Some srv \<Rightarrow> addLoop w rest m
      | None \<Rightarrow>
          (case newAndStartServiceFor w m token of
             (m', Inl e) \<Rightarrow> (m', Some e)
           | (m', Inr srv) \<Rightarrow> addLoop w rest m'))"

text \<open>The \<^verbatim>\<open>Range\<close> of lines 142 to 149, over the entries it visits.\<close>

fun removeLoop :: "string list \<Rightarrow> (string \<times> Service) list \<Rightarrow> ServiceManager \<Rightarrow> ServiceManager" where
  "removeLoop tokenList [] m = m"
| "removeLoop tokenList ((token, srv) # rest) m =
     (if token \<notin> set tokenList
      then removeLoop tokenList rest
             (m\<lparr>srvs := srvs_Delete token (srvs m), events := events m @ [EvStop token srv]\<rparr>)
      else removeLoop tokenList rest m)"

definition syncEntrustedLsdTokens ::
  "ManagerWorld \<Rightarrow> ServiceManager \<Rightarrow> ServiceManager \<times> error option" where
  "syncEntrustedLsdTokens w m =
     (case NewLsdNetworkFactory w of
        Some e \<Rightarrow> (m, Some e)
      | None \<Rightarrow>
          (case GetEntrustedLsdTokens w of
             Inl e \<Rightarrow> (m, Some e)
           | Inr tokens \<Rightarrow>
               let tokenList = map (Address_String w) tokens in
               (case addLoop w tokenList m of
                  (m1, Some e) \<Rightarrow> (m1, Some e)
                | (m1, None) \<Rightarrow> (removeLoop tokenList (srvs m1) m1, None))))"

text \<open>The keys of the services map, and the events a call added to the log.\<close>

definition srvs_keys :: "ServiceManager \<Rightarrow> string set" where
  "srvs_keys m = fst ` set (srvs m)"

definition new_events :: "ServiceManager \<Rightarrow> ServiceManager \<Rightarrow> mgr_event list" where
  "new_events m m' = drop (length (events m)) (events m')"

section \<open>Publishing the Merkle root (service/service_manager.go)\<close>

text \<open>
  The two reward structs share three fields; \<^verbatim>\<open>NodeReward\<close> adds \<^verbatim>\<open>Index\<close> and
  \<^verbatim>\<open>Proof\<close>.
\<close>

record NodeNewReward =
  Address :: string
  TotalRewardAmount :: Decimal
  TotalExitDepositAmount :: Decimal

record NodeReward = NodeNewReward +
  Index :: "32 word"
  Proof :: string

text \<open>
  What \<^verbatim>\<open>setMerkleRoot\<close> leaves outside the process: the Merkle tree it builds, the
  file it uploads, the vote it looks up, and the steps of sending the transaction.
\<close>

datatype srv_event =
    EvNewMerkleTree "bytes list"
  | EvUpload string string
  | EvHasVoted bytes address
  | EvLockAndUpdateTxOpts
  | EvSetMerkleRoot int bytes string
  | EvUnlockTxOpts
  | EvWaitTxOk bytes

text \<open>
  The collaborators of \<^verbatim>\<open>setMerkleRoot\<close>, none of them in the files at hand: the beacon
  client, the contract bindings, the storage service, the Merkle tree of package utils
  (of an abstract type \<open>'tree\<close>), go-ethereum's \<^verbatim>\<open>HexToAddress\<close> and Keccak-256, and
  the JSON encoding of one \<^verbatim>\<open>NodeReward\<close> and \<^verbatim>\<open>path.Join\<close>. \<^verbatim>\<open>FilterSetMerkleRoot\<close> answers with the
  \<^verbatim>\<open>NodeRewardsFileCid\<close> of the events its iterator yields; \<^verbatim>\<open>json_Unmarshal\<close> with
  the elements of the array, \<open>None\<close> for a JSON \<^verbatim>\<open>null\<close> (a nil pointer).
\<close>

record 'tree ServiceWorld =
  Eth2BeaconHead :: "error + uint64"
  LatestMerkleRootEpoch :: "error + nat"
  getEpochStartBlocknumberWithCheck :: "uint64 \<Rightarrow> error + uint64"
  FilterSetMerkleRoot :: "nat \<Rightarrow> error + string list"
  DownloadWeb3File :: "string \<Rightarrow> string \<Rightarrow> error + string"
  NodeRewardsFileNameAtEpoch :: "uint64 \<Rightarrow> string"
  json_Unmarshal :: "string \<Rightarrow> error + NodeReward option list"
  getNodeNewRewardsBetween :: "uint64 \<Rightarrow> uint64 \<Rightarrow> error + (address \<times> NodeNewReward) list"
  HexToAddress :: "string \<Rightarrow> address"
  GetNodeHash :: "int \<Rightarrow> address \<Rightarrow> int \<Rightarrow> int \<Rightarrow> bytes"
  NewMerkleTree :: "bytes list \<Rightarrow> 'tree"
  GetRootHash :: "'tree \<Rightarrow> error + bytes"
  GetProof :: "'tree \<Rightarrow> bytes \<Rightarrow> error + bytes list"
  NodeHash_String :: "bytes \<Rightarrow> string"
  json_NodeReward :: "NodeReward \<Rightarrow> string"
  path_Join :: "string \<Rightarrow> string \<Rightarrow> string"
  UploadFileToWeb3Storage :: "string \<Rightarrow> string \<Rightarrow> error + string"
  Keccak256Hash :: "bytes \<Rightarrow> bytes"
  HasVoted :: "bytes \<Rightarrow> address \<Rightarrow> error + bool"
  LockAndUpdateTxOpts :: "error option"
  SetMerkleRoot :: "int \<Rightarrow> bytes \<Rightarrow> string \<Rightarrow> error + bytes"
  waitTxOk :: "bytes \<Rightarrow> error option"

subsection \<open>Library functions\<close>

text \<open>\<^verbatim>\<open>errors.Wrap\<close> (github.com/pkg/errors): "If err is nil, Wrap returns nil."\<close>

definition errors_Wrap :: "error option \<Rightarrow> string \<Rightarrow> error option" where
  "errors_Wrap e message = (case e of None \<Rightarrow> None | Some e' \<Rightarrow> Some (ErrWrapped e' message))"

text \<open>\<^verbatim>\<open>strings.Join\<close>.\<close>

fun strings_Join :: "string list \<Rightarrow> string \<Rightarrow> string" where
  "strings_Join [] sep = ''''"
| "strings_Join [x] sep = x"
| "strings_Join (x # y # ys) sep = x @ sep @ strings_Join (y # ys) sep"

text \<open>\<^verbatim>\<open>json.Marshal\<close> of a slice of structs: the elements between brackets.\<close>

definition json_Marshal :: "'tree ServiceWorld \<Rightarrow> NodeReward list \<Rightarrow> string" where
  "json_Marshal w l = ''['' @ strings_Join (map (json_NodeReward w) l) '','' @ '']''"

text \<open>\<^verbatim>\<open>Decimal.BigInt\<close>: the integer part.\<close>

definition decimal_BigInt :: "Decimal \<Rightarrow> int" where
  "decimal_BigInt d = trunc_toward_zero d"

text \<open>
  \<^verbatim>\<open>big.Int.Bytes\<close>: the absolute value, big-endian, without leading zeros.
  \<^verbatim>\<open>common.LeftPadBytes\<close> pads with zeros on the left up to the given length.
\<close>

fun nat_bytes :: "nat \<Rightarrow> nat \<Rightarrow> bytes" where
  "nat_bytes 0 n = []"
| "nat_bytes (Suc fuel) n = (if n = 0 then [] else nat_bytes fuel (n div 256) @ [word_of_nat (n mod 256)])"

definition big_Bytes :: "int \<Rightarrow> bytes" where
  "big_Bytes x = nat_bytes (nat \<bar>x\<bar>) (nat \<bar>x\<bar>)"

definition LeftPadBytes :: "bytes \<Rightarrow> nat \<Rightarrow> bytes" where
  "LeftPadBytes bs l = (if l \<le> length bs then bs else replicate (l - length bs) 0 @ bs)"

definition bytes_of_string :: "string \<Rightarrow> bytes" where
  "bytes_of_string s = map (\<lambda>c. word_of_nat (of_char c)) s"

text \<open>\<^verbatim>\<open>copy(merkleTreeRootHash[:], rootHash)\<close> into a zeroed \<^verbatim>\<open>[32]byte\<close>.\<close>

definition copy32 :: "bytes \<Rightarrow> bytes" where
  "copy32 src = take 32 src @ replicate (32 - length src) 0"

text \<open>\<^verbatim>\<open>int64(x)\<close> of a \<^verbatim>\<open>uint64\<close>, and of a \<^verbatim>\<open>uint32\<close>.\<close>

definition int64_of_uint64 :: "uint64 \<Rightarrow> int" where
  "int64_of_uint64 x = sint x"

definition int64_of_uint32 :: "32 word \<Rightarrow> int" where
  "int64_of_uint32 x = uint x"

subsection \<open>pkg/utils/eth2.go: the proposal id\<close>

definition VoteMerkleRootProposalId :: "'tree ServiceWorld \<Rightarrow> int \<Rightarrow> bytes \<Rightarrow> string \<Rightarrow> bytes" where
  "VoteMerkleRootProposalId w dealedEpoch merkleRoot cid =
     Keccak256Hash w (bytes_of_string ''setMerkleRoot'' @ LeftPadBytes (big_Bytes dealedEpoch) 32
                      @ merkleRoot @ bytes_of_string cid)"

subsection \<open>A Go map from addresses, as a list of entries\<close>

fun map_Store :: "'k \<Rightarrow> 'v \<Rightarrow> ('k \<times> 'v) list \<Rightarrow> ('k \<times> 'v) list" where
  "map_Store k v [] = [(k, v)]"
| "map_Store k v ((k', v') # al) = (if k' = k then (k, v) # al else (k', v') # map_Store k v al)"

subsection \<open>checkStateForSetMerkleRoot\<close>

text \<open>
  Returns (dealedEpoch, targetEpoch, targetEth1Blocknumber, shouldGoNext) or the error;
  the \<^verbatim>\<open>*big.Int\<close> is \<open>None\<close> where the code returns \<^verbatim>\<open>nil\<close>. The division of
  line 385 panics when \<^verbatim>\<open>merkleRootDuEpochs\<close> is zero.
\<close>

definition checkStateForSetMerkleRoot ::
  "'tree ServiceWorld \<Rightarrow> Service
   \<Rightarrow> (error + (nat option \<times> uint64 \<times> uint64 \<times> bool)) exec" where
  "checkStateForSetMerkleRoot w s =
     (case Eth2BeaconHead w of
        Inl e \<Rightarrow> Returns (Inl e)
      | Inr finalizedEpoch \<Rightarrow>
          if merkleRootDuEpochs s = 0 then Panics ''integer divide by zero''
          else
            let targetEpoch = (finalizedEpoch div merkleRootDuEpochs s) * merkleRootDuEpochs s in
            (case LatestMerkleRootEpoch w of
               Inl e \<Rightarrow> Returns (Inl e)
             | Inr dealedEpochOnchain \<Rightarrow>
                 if targetEpoch \<le> big_Uint64 dealedEpochOnchain
                 then Returns (Inr (None, 0, 0, False))
                 else
                   (case getEpochStartBlocknumberWithCheck w targetEpoch of
                      Inl e \<Rightarrow> Returns (Inl e)
                    | Inr targetEth1BlockHeight \<Rightarrow>
                        if targetEth1BlockHeight > latestBlockOfSyncBlock s
                        then Returns (Inr (None, 0, 0, False))
                        else Returns (Inr (Some dealedEpochOnchain, targetEpoch,
                                           targetEth1BlockHeight, True)))))"

subsection \<open>The blocks of setMerkleRoot\<close>

text \<open>Lines 212 to 243: the block height dealt with on chain and the previous list.\<close>

definition preNodeRewards ::
  "'tree ServiceWorld \<Rightarrow> Service \<Rightarrow> nat \<Rightarrow> error + (uint64 \<times> NodeReward option list)" where
  "preNodeRewards w s dealedEpochOnchain =
     (if big_Uint64 dealedEpochOnchain > 0 then
        (case FilterSetMerkleRoot w dealedEpochOnchain of
           Inl e \<Rightarrow> Inl e
         | Inr [] \<Rightarrow> Inl (ErrEventNotExist (big_Uint64 dealedEpochOnchain))
         | Inr (preCid # later) \<Rightarrow>
             (case DownloadWeb3File w preCid
                     (NodeRewardsFileNameAtEpoch w (big_Uint64 dealedEpochOnchain)) of
                Inl e \<Rightarrow> Inl e
              | Inr fileBytes \<Rightarrow>
                  (case json_Unmarshal w fileBytes of
                     Inl e \<Rightarrow> Inl e
                   | Inr preNodeRewardList \<Rightarrow>
                       (case getEpochStartBlocknumberWithCheck w (big_Uint64 dealedEpochOnchain) of
                          Inl e \<Rightarrow> Inl e
                        | Inr dealedEth1BlockHeight \<Rightarrow>
                            Inr (dealedEth1BlockHeight, preNodeRewardList)))))
      else Inr (networkCreateBlock s, []))"

text \<open>
  Lines 245 to 252: the previous list as a map, refusing a repeated address. Reading
  the address of a nil element panics.
\<close>

fun preMapLoop ::
  "'tree ServiceWorld \<Rightarrow> NodeReward option list \<Rightarrow> (address \<times> NodeReward) list
   \<Rightarrow> (error + (address \<times> NodeReward) list) exec" where
  "preMapLoop w [] preNodeRewardMap = Returns (Inr preNodeRewardMap)"
| "preMapLoop w (None # rest) preNodeRewardMap = Panics ''nil pointer dereference''"
| "preMapLoop w (Some nodeReward # rest) preNodeRewardMap =
     (let address = HexToAddress w (Address nodeReward) in
      case map_of preNodeRewardMap address of
        Some other \<Rightarrow> Returns (Inl (ErrDuplicateNode (Address nodeReward)))
      | None \<Rightarrow> preMapLoop w rest (map_Store address nodeReward preNodeRewardMap))"

text \<open>
  Lines 260 to 273 and 275 to 288, the same loop over the previous and over the new
  rewards: amounts of one address add up. A \<^verbatim>\<open>range\<close> over a Go map visits its
  entries in an order the language leaves open; the loop takes them as listed.
\<close>

fun mergeLoop ::
  "'tree ServiceWorld \<Rightarrow> 'a NodeNewReward_scheme list \<Rightarrow> (address \<times> NodeReward) list
   \<Rightarrow> (address \<times> NodeReward) list" where
  "mergeLoop w [] finalNodeRewardsMap = finalNodeRewardsMap"
| "mergeLoop w (node # rest) finalNodeRewardsMap =
     (let address = HexToAddress w (Address node) in
      case map_of finalNodeRewardsMap address of
        Some f \<Rightarrow>
          mergeLoop w rest
            (map_Store address
               (f\<lparr>TotalRewardAmount := decimal_Add (TotalRewardAmount f) (TotalRewardAmount node),
                  TotalExitDepositAmount :=
                    decimal_Add (TotalExitDepositAmount f) (TotalExitDepositAmount node)\<rparr>)
               finalNodeRewardsMap)
      | None \<Rightarrow>
          mergeLoop w rest
            (map_Store address
               \<lparr>Address = Address node, TotalRewardAmount = TotalRewardAmount node,
                TotalExitDepositAmount = TotalExitDepositAmount node, Index = 0, Proof = ''''\<rparr>
               finalNodeRewardsMap))"

text \<open>Lines 291 to 300: the final list, sorted by address, each node with its position.\<close>

definition finalList :: "(address \<times> NodeReward) list \<Rightarrow> NodeReward list" where
  "finalList finalNodeRewardsMap =
     map (\<lambda>(i, node). node\<lparr>Index := word_of_nat i\<rparr>)
       (enumerate 0 (sort_key Address (map snd finalNodeRewardsMap)))"

subsection \<open>buildMerkleTree\<close>

definition buildMerkleTree ::
  "'tree ServiceWorld \<Rightarrow> NodeReward list \<Rightarrow> srv_event list \<times> (error + 'tree)" where
  "buildMerkleTree w nodelist =
     (if length nodelist = 0 then ([], Inl ErrProofListEmpty)
      else
        let list = map (\<lambda>data. GetNodeHash w (int64_of_uint32 (Index data))
                                   (HexToAddress w (Address data))
                                   (decimal_BigInt (TotalRewardAmount data))
                                   (decimal_BigInt (TotalExitDepositAmount data))) nodelist
        in ([EvNewMerkleTree list], Inr (NewMerkleTree w list)))"

text \<open>
  Lines 315 to 332: the proof of each node. \<open>Inl r\<close> is a \<^verbatim>\<open>return r\<close> of
  \<^verbatim>\<open>setMerkleRoot\<close> from inside the loop; \<open>Inr\<close> is the list with its proofs set. At
  line 323 the variable \<^verbatim>\<open>err\<close> is the one line 318 declared and line 319 found nil.
\<close>

fun proofLoop ::
  "'tree ServiceWorld \<Rightarrow> 'tree \<Rightarrow> NodeReward list \<Rightarrow> error option + NodeReward list" where
  "proofLoop w tree [] = Inr []"
| "proofLoop w tree (nodeReward # rest) =
     (let nodeHash = GetNodeHash w (int64_of_uint32 (Index nodeReward))
                       (HexToAddress w (Address nodeReward))
                       (decimal_BigInt (TotalRewardAmount nodeReward))
                       (decimal_BigInt (TotalExitDepositAmount nodeReward))
      in case GetProof w tree nodeHash of
           Inl e \<Rightarrow> Inl (errors_Wrap (Some e) ''tree.GetProof failed'')
         | Inr proofList \<Rightarrow>
             if length proofList = 0 then Inl (errors_Wrap None ''tree.GetProof result empty'')
             else
               (case proofLoop w tree rest of
                  Inl r \<Rightarrow> Inl r
                | Inr rest' \<Rightarrow>
                    Inr (nodeReward\<lparr>Proof := strings_Join (map (NodeHash_String w) proofList) '':''\<rparr>
                         # rest')))"

text \<open>Lines 302 to 333: the root hash and the list with proofs, or the early return.\<close>

definition rootAndProofs ::
  "'tree ServiceWorld \<Rightarrow> NodeReward list
   \<Rightarrow> srv_event list \<times> (error option + (bytes \<times> NodeReward list))" where
  "rootAndProofs w finalNodeRewardsList =
     (if length finalNodeRewardsList > 0 then
        (case buildMerkleTree w finalNodeRewardsList of
           (evs, Inl e) \<Rightarrow> (evs, Inl (Some e))
         | (evs, Inr tree) \<Rightarrow>
             (case GetRootHash w tree of
                Inl e \<Rightarrow> (evs, Inl (Some e))
              | Inr rootHash \<Rightarrow>
                  (case proofLoop w tree finalNodeRewardsList of
                     Inl r \<Rightarrow> (evs, Inl r)
                   | Inr l \<Rightarrow> (evs, Inr (rootHash, l)))))
      else ([], Inr ([], finalNodeRewardsList)))"

subsection \<open>sendSetMerkleRootTx\<close>

definition sendSetMerkleRootTx ::
  "'tree ServiceWorld \<Rightarrow> Service \<Rightarrow> int \<Rightarrow> bytes \<Rightarrow> string \<Rightarrow> srv_event list \<times> error option" where
  "sendSetMerkleRootTx w s targetEpoch rootHash cid =
     (case LockAndUpdateTxOpts w of
        Some e \<Rightarrow> ([], Some (ErrLockTxOpts e))
      | None \<Rightarrow>
          (case SetMerkleRoot w targetEpoch rootHash cid of
             Inl e \<Rightarrow> ([EvLockAndUpdateTxOpts, EvUnlockTxOpts], Some e)
           | Inr txHash \<Rightarrow>
               ([EvLockAndUpdateTxOpts, EvSetMerkleRoot targetEpoch rootHash cid,
                 EvWaitTxOk txHash, EvUnlockTxOpts],
                waitTxOk w txHash)))"

subsection \<open>setMerkleRoot\<close>

text \<open>
  Lines 203 to 300, the final list. \<open>Returns (Inl r)\<close> is a \<^verbatim>\<open>return r\<close> on the way
  (\<open>None\<close> for \<^verbatim>\<open>nil\<close>), \<open>Returns (Inr _)\<close> the target epoch and the merged, sorted
  and indexed list, and \<open>Panics\<close> a panic, on which \<^verbatim>\<open>setMerkleRoot\<close> does not return.
\<close>

definition setMerkleRoot_finalList ::
  "'tree ServiceWorld \<Rightarrow> Service \<Rightarrow> (error option + (uint64 \<times> NodeReward list)) exec" where
  "setMerkleRoot_finalList w s =
     (case checkStateForSetMerkleRoot w s of
        Panics msg \<Rightarrow> Panics msg
      | Returns (Inl e) \<Rightarrow>
          Returns (Inl (errors_Wrap (Some e) ''setMerkleRoot checkSyncState failed''))
      | Returns (Inr (dealedEpochOnchain, targetEpoch, targetEth1BlockHeight, shouldGoNext)) \<Rightarrow>
          if \<not> shouldGoNext then Returns (Inl None)
          else
            (case dealedEpochOnchain of
               None \<Rightarrow> Panics ''nil pointer dereference''
             | Some dealed \<Rightarrow>
            (case preNodeRewards w s dealed of
               Inl e \<Rightarrow> Returns (Inl (Some e))
             | Inr (dealedEth1BlockHeight, preNodeRewardList) \<Rightarrow>
            (case preMapLoop w preNodeRewardList [] of
               Panics msg \<Rightarrow> Panics msg
             | Returns (Inl e) \<Rightarrow> Returns (Inl (Some e))
             | Returns (Inr preNodeRewardMap) \<Rightarrow>
            (case getNodeNewRewardsBetween w dealedEth1BlockHeight targetEth1BlockHeight of
               Inl e \<Rightarrow> Returns (Inl (Some e))
             | Inr newNodeRewardsMap \<Rightarrow>
                 let finalNodeRewardsMap =
                       mergeLoop w (map snd newNodeRewardsMap)
                         (mergeLoop w (map snd preNodeRewardMap) [])
                 in Returns (Inr (targetEpoch, finalList finalNodeRewardsMap)))))))"

text \<open>
  Lines 203 to 347, the local computation: the final list, its tree and proofs, and the
  upload. \<open>Returns (Inr _)\<close> is the target epoch, the 32 bytes of the root and the cid
  of the file.
\<close>

definition setMerkleRoot_compute ::
  "'tree ServiceWorld \<Rightarrow> Service
   \<Rightarrow> srv_event list \<times> (error option + (uint64 \<times> bytes \<times> string)) exec" where
  "setMerkleRoot_compute w s =
     (case setMerkleRoot_finalList w s of
        Panics msg \<Rightarrow> ([], Panics msg)
      | Returns (Inl r) \<Rightarrow> ([], Returns (Inl r))
      | Returns (Inr (targetEpoch, finalNodeRewardsList)) \<Rightarrow>
          (case rootAndProofs w finalNodeRewardsList of
             (evs, Inl r) \<Rightarrow> (evs, Returns (Inl r))
           | (evs, Inr (rootHash, finalNodeRewardsList')) \<Rightarrow>
               let fileBts = json_Marshal w finalNodeRewardsList';
                   filePath = path_Join w (nodeRewardsFilePath s)
                                (NodeRewardsFileNameAtEpoch w targetEpoch)
               in
               (case UploadFileToWeb3Storage w fileBts filePath of
                  Inl e \<Rightarrow> (evs, Returns (Inl (Some e)))
                | Inr cid \<Rightarrow>
                    (evs @ [EvUpload fileBts filePath],
                     Returns (Inr (targetEpoch, copy32 rootHash, cid))))))"

text \<open>
  Lines 349 to 360: the vote, behind the \<^verbatim>\<open>HasVoted\<close> check. The result is the trace
  and either the returned error (\<open>None\<close> for \<^verbatim>\<open>nil\<close>) or the panic.
\<close>

definition setMerkleRoot ::
  "'tree ServiceWorld \<Rightarrow> Service \<Rightarrow> srv_event list \<times> error option exec" where
  "setMerkleRoot w s =
     (case setMerkleRoot_compute w s of
        (evs, Panics msg) \<Rightarrow> (evs, Panics msg)
      | (evs, Returns (Inl r)) \<Rightarrow> (evs, Returns r)
      | (evs, Returns (Inr (targetEpoch, merkleTreeRootHash, cid))) \<Rightarrow>
          let proposalId = VoteMerkleRootProposalId w (int64_of_uint64 targetEpoch)
                             merkleTreeRootHash cid
          in
          (case HasVoted w proposalId (keyPairAddress s) of
             Inl e \<Rightarrow>
               (evs @ [EvHasVoted proposalId (keyPairAddress s)], Returns (Some (ErrHasVoted e)))
           | Inr hasVoted \<Rightarrow>
               if hasVoted then (evs @ [EvHasVoted proposalId (keyPairAddress s)], Returns None)
               else
                 (case sendSetMerkleRootTx w s (int64_of_uint64 targetEpoch) merkleTreeRootHash cid of
                    (evs', r) \<Rightarrow>
                      (evs @ [EvHasVoted proposalId (keyPairAddress s)] @ evs', Returns r))))"

text \<open>The transactions a run sent.\<close>

fun is_SetMerkleRoot :: "srv_event \<Rightarrow> bool" where
  "is_SetMerkleRoot (EvSetMerkleRoot epoch rootHash cid) = True"
| "is_SetMerkleRoot other = False"

definition sent_txs :: "srv_event list \<times> error option exec \<Rightarrow> nat" where
  "sent_txs run = length (filter is_SetMerkleRoot (fst run))"

fun is_NewMerkleTree :: "srv_event \<Rightarrow> bool" where
  "is_NewMerkleTree (EvNewMerkleTree leaves) = True"
| "is_NewMerkleTree other = False"

section \<open>The Merkle tree of package utils\<close>

text \<open>
  Modelled from the spec: \<^verbatim>\<open>utils.NewMerkleTree\<close>, \<^verbatim>\<open>GetRootHash\<close> and
  \<^verbatim>\<open>GetProof\<close>, whose file is not among the files at hand. The spec's section 4.2: a
  balanced binary tree over the list of leaf hashes; where a level has an odd number
  of nodes the last node is promoted unchanged; the parent hash is the hash of the
  smaller child followed by the larger; \<^verbatim>\<open>GetProof\<close> returns the sibling hash at each
  level from the leaf to the root; the empty input and a leaf that is not in the tree
  are errors, and so is \<^verbatim>\<open>GetRootHash\<close> on an empty tree. The tree is the list of its
  levels, the leaves first; the hash function is a parameter.
\<close>

type_synonym MerkleTree = "bytes list list"

fun nextLevel :: "(bytes \<Rightarrow> bytes) \<Rightarrow> bytes list \<Rightarrow> bytes list" where
  "nextLevel h (l # r # rest) = h (min l r @ max l r) # nextLevel h rest"
| "nextLevel h rest = rest"

fun levelsFrom :: "(bytes \<Rightarrow> bytes) \<Rightarrow> nat \<Rightarrow> bytes list \<Rightarrow> MerkleTree" where
  "levelsFrom h 0 level = [level]"
| "levelsFrom h (Suc n) level =
     (if length level \<le> 1 then [level] else level # levelsFrom h n (nextLevel h level))"

definition spec_NewMerkleTree :: "(bytes \<Rightarrow> bytes) \<Rightarrow> bytes list \<Rightarrow> MerkleTree" where
  "spec_NewMerkleTree h leaves = levelsFrom h (length leaves) leaves"

definition spec_GetRootHash :: "MerkleTree \<Rightarrow> error + bytes" where
  "spec_GetRootHash tree =
     (case tree of
        [] \<Rightarrow> Inl (ErrExternal ''empty tree'')
      | level # levels \<Rightarrow>
          (case last tree of
             [] \<Rightarrow> Inl (ErrExternal ''empty tree'')
           | rootHash # others \<Rightarrow> Inr rootHash))"

fun indexOf :: "bytes \<Rightarrow> bytes list \<Rightarrow> nat option" where
  "indexOf x [] = None"
| "indexOf x (y # ys) = (if x = y then Some 0 else map_option Suc (indexOf x ys))"

fun siblings :: "MerkleTree \<Rightarrow> nat \<Rightarrow> bytes list" where
  "siblings [] i = []"
| "siblings [rootLevel] i = []"
| "siblings (level # upper # levels) i =
     (let sibling = (if even i then i + 1 else i - 1) in
      (if sibling < length level then [level ! sibling] else [])
      @ siblings (upper # levels) (i div 2))"

definition spec_GetProof :: "MerkleTree \<Rightarrow> bytes \<Rightarrow> error + bytes list" where
  "spec_GetProof tree leaf =
     (case tree of
        [] \<Rightarrow> Inl (ErrExternal ''empty tree'')
      | leaves # levels \<Rightarrow>
          if leaves = [] then Inl (ErrExternal ''empty tree'')
          else (case indexOf leaf leaves of
                  None \<Rightarrow> Inl (ErrExternal ''leaf not found'')
                | Some i \<Rightarrow> Inr (siblings tree i)))"

section \<open>Example inputs\<close>

subsection \<open>Execution clients\<close>

text \<open>
  A transaction that is pending for two polls and whose receipt is there at the second
  request, with a given status; one that stays pending; one whose receipt never comes.
\<close>

definition client_mined :: "uint64 \<Rightarrow> EthClient" where
  "client_mined st =
     \<lparr>TransactionByHash = (\<lambda>h n. if n < 2 then Inr True else Inr False),
      TransactionReceipt = (\<lambda>h n. if n < 1 then Inl (ErrExternal ''not found'')
                                    else Inr \<lparr>Status = st, BlockNumber = 100\<rparr>)\<rparr>"

definition client_pending :: EthClient where
  "client_pending =
     \<lparr>TransactionByHash = (\<lambda>h n. Inr True),
      TransactionReceipt = (\<lambda>h n. Inl (ErrExternal ''not found''))\<rparr>"

definition client_no_receipt :: EthClient where
  "client_no_receipt =
     \<lparr>TransactionByHash = (\<lambda>h n. Inr False),
      TransactionReceipt = (\<lambda>h n. Inl (ErrExternal ''not found''))\<rparr>"

subsection \<open>A service and its world\<close>

text \<open>
  Stand-ins for the two library functions that the example worlds need and HOL does
  not have: a hash that reads 32 bytes off its input, in the place of Keccak-256, and
  a reader of hexadecimal digits, in the place of \<^verbatim>\<open>common.HexToAddress\<close>.
\<close>

definition example_hash :: "bytes \<Rightarrow> bytes" where
  "example_hash bs = take 32 (bs @ replicate 32 0)"

definition hex_digit :: "char \<Rightarrow> nat" where
  "hex_digit c =
     (let n = of_char c in
      if 48 \<le> n \<and> n \<le> 57 then n - 48
      else if 97 \<le> n \<and> n \<le> 102 then n - 87
      else if 65 \<le> n \<and> n \<le> 70 then n - 55
      else 0)"

definition example_HexToAddress :: "string \<Rightarrow> address" where
  "example_HexToAddress s = word_of_nat (foldl (\<lambda>acc c. 16 * acc + hex_digit c) 0 (drop 2 s))"

definition example_service :: Service where
  "example_service =
     \<lparr>srvCfg = 1, networkCreateBlock = 100, latestBlockOfSyncBlock = 10000,
      merkleRootDuEpochs = 75, nodeRewardsFilePath = ''rewards'', keyPairAddress = 7\<rparr>"

text \<open>
  A world at finalized epoch 230 with no Merkle root on chain yet: the new rewards and
  the answer of \<^verbatim>\<open>HasVoted\<close> are the two parameters.
\<close>

definition example_world :: "(address \<times> NodeNewReward) list \<Rightarrow> bool \<Rightarrow> MerkleTree ServiceWorld" where
  "example_world newRewards voted =
     \<lparr>Eth2BeaconHead = Inr 230,
      LatestMerkleRootEpoch = Inr 0,
      getEpochStartBlocknumberWithCheck = (\<lambda>epoch. Inr (epoch * 32)),
      FilterSetMerkleRoot = (\<lambda>epoch. Inr []),
      DownloadWeb3File = (\<lambda>cid name. Inl (ErrExternal ''not found'')),
      NodeRewardsFileNameAtEpoch = (\<lambda>epoch. ''node-rewards.json''),
      json_Unmarshal = (\<lambda>bs. Inr []),
      getNodeNewRewardsBetween = (\<lambda>start end. Inr newRewards),
      HexToAddress = example_HexToAddress,
      GetNodeHash = (\<lambda>index addr reward deposit.
                       example_hash [word_of_int index, ucast addr, word_of_int reward,
                                     word_of_int deposit]),
      NewMerkleTree = spec_NewMerkleTree example_hash,
      GetRootHash = spec_GetRootHash,
      GetProof = spec_GetProof,
      NodeHash_String = (\<lambda>h. ''h''),
      json_NodeReward = (\<lambda>node. Address node),
      path_Join = (\<lambda>dir name. dir @ ''/'' @ name),
      UploadFileToWeb3Storage = (\<lambda>bs name. Inr ''cid''),
      Keccak256Hash = example_hash,
      HasVoted = (\<lambda>proposalId voter. Inr voted),
      LockAndUpdateTxOpts = None,
      SetMerkleRoot = (\<lambda>epoch rootHash cid. Inr [1]),
      waitTxOk = (\<lambda>txHash. None)\<rparr>"

definition node_a :: NodeNewReward where
  "node_a = \<lparr>Address = ''0x0a'', TotalRewardAmount = 10, TotalExitDepositAmount = 0\<rparr>"


subsection \<open>A manager and its world\<close>

definition example_config :: "string \<Rightarrow> Config" where
  "example_config token =
     \<lparr>Eth1Endpoint = ''http://eth1'', Eth2Endpoint = ''http://eth2'', GasLimit = ''3000000'',
      MaxGasPrice = ''100'', RunForEntrustedLsdNetwork = True,
      Contracts = \<lparr>LsdTokenAddress = token\<rparr>\<rparr>"

text \<open>
  A manager whose configuration is at address 0 and that runs the services of the
  tokens \<open>0x01\<close> and \<open>0x02\<close>, with their configurations at the addresses 1 and 2.
\<close>

definition example_manager :: ServiceManager where
  "example_manager =
     \<lparr>heap = (\<lambda>p. if p = 1 then example_config ''0x01''
                   else if p = 2 then example_config ''0x02'' else example_config ''''),
      nextRef = 3,
      cfg = 0,
      srvs = [(''0x01'', example_service\<lparr>srvCfg := 1\<rparr>), (''0x02'', example_service\<lparr>srvCfg := 2\<rparr>)],
      events = []\<rparr>"

definition example_Address_String :: "address \<Rightarrow> string" where
  "example_Address_String a =
     (if a = 1 then ''0x01'' else if a = 2 then ''0x02'' else if a = 3 then ''0x03'' else ''0x00'')"

definition example_manager_world :: "address list \<Rightarrow> ManagerWorld" where
  "example_manager_world tokens =
     \<lparr>NewService = (\<lambda>c. Inr example_service),
      Start = (\<lambda>srv. None),
      NewLsdNetworkFactory = None,
      GetEntrustedLsdTokens = Inr tokens,
      Address_String = example_Address_String\<rparr>"

section \<open>Properties: epoch arithmetic\<close>

declare receiptLoop.simps [simp del] waitLoop.simps [simp del] readLoop.simps [simp del]

lemma word_mul_div_cancel:
  fixes e b :: uint64
  assumes "b \<noteq> 0" "unat e * unat b < 2 ^ 64"
  shows "(e * b) div b = e"
proof -
  have "unat (e * b) = unat e * unat b"
    using assms(2) unat_mult_lem [of e b] by simp
  moreover have "unat b \<noteq> 0" using assms(1) by (simp add: unat_eq_0)
  ultimately have "unat ((e * b) div b) = unat e"
    by (simp add: unat_div)
  then show ?thesis by (simp add: word_unat_eq_iff)
qed

lemma round_trip_value:
  assumes "SecondsPerEpoch c = SecondsPerSlot c * SlotsPerEpoch c"
      and "SecondsPerEpoch c \<noteq> 0"
      and "unat e * unat (SecondsPerEpoch c) < 2 ^ 64"
  shows "EpochAtTimestamp c (TimestampOfSlot c (StartSlotOfEpoch c e)) = Some (GenesisEpoch c + e)"
proof -
  have "SlotsPerEpoch c * e * SecondsPerSlot c = e * SecondsPerEpoch c"
    using assms(1) by (simp add: mult_ac)
  then show ?thesis using assms(2,3)
    by (simp add: EpochAtTimestamp_def TimestampOfSlot_def StartSlotOfEpoch_def word_mul_div_cancel)
qed

text \<open>
  C3, as amended. For every \<open>Eth2Config\<close> with
  \<open>secondsPerEpoch = secondsPerSlot * slotsPerEpoch\<close>, not zero, and every epoch \<open>e\<close>
  with \<open>e * secondsPerEpoch < 2 ^ 64\<close>, the round trip
  \<open>EpochAtTimestamp (TimestampOfSlot (StartSlotOfEpoch e))\<close> returns
  \<open>genesisEpoch + e\<close>; it returns \<open>e\<close> exactly when the genesis epoch is 0.
\<close>

theorem epoch_round_trip:
  assumes "SecondsPerEpoch c = SecondsPerSlot c * SlotsPerEpoch c"
      and "SecondsPerEpoch c \<noteq> 0"
      and "unat e * unat (SecondsPerEpoch c) < 2 ^ 64"
  shows "EpochAtTimestamp c (TimestampOfSlot c (StartSlotOfEpoch c e)) = Some (GenesisEpoch c + e)
         \<and> (EpochAtTimestamp c (TimestampOfSlot c (StartSlotOfEpoch c e)) = Some e
              \<longleftrightarrow> GenesisEpoch c = 0)"
  using round_trip_value [OF assms] by simp

theorem epoch_round_trip_witness:
  "EpochAtTimestamp config_mainnet (TimestampOfSlot config_mainnet (StartSlotOfEpoch config_mainnet 10))
     = Some 10"
proof -
  have "SecondsPerEpoch config_mainnet = SecondsPerSlot config_mainnet * SlotsPerEpoch config_mainnet"
    and "SecondsPerEpoch config_mainnet \<noteq> 0"
    and "unat (10 :: uint64) * unat (SecondsPerEpoch config_mainnet) < 2 ^ 64"
    by (simp_all add: config_mainnet_def)
  from epoch_round_trip [OF this] show ?thesis
    by (simp add: config_mainnet_def)
qed

text \<open>
  The claim as stated fails where the genesis epoch is 1: epoch 1 comes back as epoch 2.
\<close>

theorem epoch_round_trip_counterexample:
  "SecondsPerEpoch config_genesis_epoch_1
     = SecondsPerSlot config_genesis_epoch_1 * SlotsPerEpoch config_genesis_epoch_1
   \<and> GenesisEpoch config_genesis_epoch_1 \<le> 1
   \<and> EpochAtTimestamp config_genesis_epoch_1
        (TimestampOfSlot config_genesis_epoch_1 (StartSlotOfEpoch config_genesis_epoch_1 1))
      \<noteq> Some 1"
  by (simp add: EpochAtTimestamp_def TimestampOfSlot_def StartSlotOfEpoch_def
      config_genesis_epoch_1_def)

section \<open>Properties: the reward split\<close>

lemma floor_succ_le:
  fixes x :: rat and M :: int
  assumes "0 \<le> x" "x \<le> of_int M"
  shows "of_int \<lfloor>x\<rfloor> + 1 \<le> (of_int M :: rat) \<or> x = of_int M"
proof (cases "x = of_int M")
  case True
  then show ?thesis by simp
next
  case False
  then have "x < of_int M" using assms by simp
  then have "\<lfloor>x\<rfloor> < M" by (simp add: floor_less_iff)
  then have "\<lfloor>x\<rfloor> + 1 \<le> M" by simp
  then have "(of_int (\<lfloor>x\<rfloor> + 1) :: rat) \<le> of_int M" by (simp only: of_int_le_iff)
  then show ?thesis by simp
qed

text \<open>
  Rounding a non-negative quotient at \<open>p\<close> digits does not cross a bound that has at
  most \<open>p\<close> digits itself.
\<close>

lemma DivRound_bounds:
  fixes a b :: rat and M :: int
  assumes a: "0 \<le> a" and b: "0 < b" and le: "a / b * 10 ^ p \<le> of_int M"
  shows "\<exists>q. decimal_DivRound a b p = Some q \<and> 0 \<le> q \<and> q \<le> of_int M / 10 ^ p"
proof -
  define s :: rat where "s = 10 ^ p"
  define x where "x = a / b * s"
  define q0 :: rat where "q0 = of_int \<lfloor>x\<rfloor> / s"
  have s: "0 < s" by (simp add: s_def)
  have x0: "0 \<le> x" using a b s by (simp add: x_def)
  have xM: "x \<le> of_int M" using le by (simp add: x_def s_def)
  have fl0: "0 \<le> \<lfloor>x\<rfloor>" using x0 by simp
  have q0_nonneg: "0 \<le> q0" using fl0 s by (simp add: q0_def)
  have "of_int \<lfloor>x\<rfloor> \<le> x" by simp
  then have q0_le: "q0 \<le> x / s" using s by (simp add: q0_def divide_right_mono)
  have xs: "x / s = a / b" using s by (simp add: x_def)
  have q0_M: "q0 \<le> of_int M / s"
    using q0_le xM s by (meson divide_right_mono less_imp_le order_trans)
  have QR: "decimal_QuoRem a b p = (q0, a - b * q0)"
    using x0 by (simp add: decimal_QuoRem_def trunc_toward_zero_def q0_def x_def s_def Let_def)
  have sg: "\<not> sgn a * sgn b < 0" using a b by (simp add: sgn_if)
  show ?thesis
  proof (cases "2 * \<bar>a - b * q0\<bar> * 10 ^ p < \<bar>b\<bar>")
    case True
    then have "decimal_DivRound a b p = Some q0"
      using b QR by (simp add: decimal_DivRound_def)
    then show ?thesis using q0_nonneg q0_M by (simp add: s_def)
  next
    case False
    then have eq: "decimal_DivRound a b p = Some (q0 + 1 / 10 ^ p)"
      using b QR sg by (simp add: decimal_DivRound_def)
    have "x \<noteq> of_int M"
    proof
      assume xeq: "x = of_int M"
      then have "q0 = x / s" by (simp add: q0_def)
      then have "q0 = a / b" using xs by simp
      then have "a - b * q0 = 0" using b by simp
      then show False using False b by simp
    qed
    then have "of_int \<lfloor>x\<rfloor> + 1 \<le> (of_int M :: rat)"
      using floor_succ_le [OF x0 xM] by simp
    then have "(of_int \<lfloor>x\<rfloor> + 1) / s \<le> of_int M / s"
      using s by (simp add: divide_right_mono)
    then have "q0 + 1 / s \<le> of_int M / s"
      by (simp add: q0_def add_divide_distrib)
    moreover have "0 \<le> q0 + 1 / s" using q0_nonneg s by simp
    ultimately show ?thesis using eq by (simp add: s_def)
  qed
qed

lemma reward_split_int:
  fixes d :: rat and k :: int
  assumes d0: "0 \<le> d" and dle: "d \<le> 32 * 10 ^ 18" and k: "0 \<le> k"
  shows "\<exists>u n p. GetUserNodePlatformReward d (of_int k) = Some (u, n, p)
           \<and> u + n + p = of_int k \<and> 0 \<le> u \<and> 0 \<le> n \<and> 0 \<le> p"
proof (cases "k = 0")
  case True
  then show ?thesis
    by (simp add: GetUserNodePlatformReward_def decimal_IsPositive_def)
next
  case False
  then have kpos: "0 < k" using k by simp
  define r :: rat where "r = of_int k"
  have rpos: "0 < r" using kpos by (simp add: r_def)
  define a where "a = r * (9 / 10) * d"
  define b :: rat where "b = 32 * 10 ^ 18"
  have a0: "0 \<le> a" using rpos d0 by (simp add: a_def)
  have b0: "0 < b" by (simp add: b_def)
  have "d / b \<le> 1" using dle b0 by (simp add: b_def)
  then have "r * (9 / 10) * (d / b) \<le> r * (9 / 10) * 1"
    using rpos by (intro mult_left_mono) simp_all
  then have "a / b \<le> r * (9 / 10)" by (simp add: a_def)
  then have "a / b * 10 ^ 16 \<le> r * (9 / 10) * 10 ^ 16"
    by (intro mult_right_mono) simp_all
  also have "r * (9 / 10) * 10 ^ 16 = of_int (9 * 10 ^ 15 * k)"
    by (simp add: r_def)
  finally have le: "a / b * 10 ^ 16 \<le> of_int (9 * 10 ^ 15 * k)" .
  obtain q where q: "decimal_DivRound a b 16 = Some q" and q0: "0 \<le> q"
    and qle: "q \<le> of_int (9 * 10 ^ 15 * k) / 10 ^ 16"
    using DivRound_bounds [OF a0 b0 le] by blast
  have qle': "q \<le> r * (9 / 10)" using qle by (simp add: r_def)
  have G: "GetUserNodePlatformReward d r =
      Some (if r - r * (5 / 100) - (r * (5 / 100) + q) < 0 then 0
            else r - r * (5 / 100) - (r * (5 / 100) + q), r * (5 / 100) + q, r * (5 / 100))"
    using rpos dle q
    by (simp add: GetUserNodePlatformReward_def decimal_IsPositive_def decimal_GreaterThan_def
        StandardEffectiveBalanceDeci_def decimal_Div_def DivisionPrecision_def decimal_Mul_def
        decimal_Add_def decimal_Sub_def decimal_IsNegative_def Percent5Deci_def Percent90Deci_def
        a_def b_def Let_def)
  have nn: "\<not> r - r * (5 / 100) - (r * (5 / 100) + q) < 0" using qle' by simp
  define u where "u = r - r * (5 / 100) - (r * (5 / 100) + q)"
  have G': "GetUserNodePlatformReward d r = Some (u, r * (5 / 100) + q, r * (5 / 100))"
    using G nn by (simp add: u_def)
  have sum: "u + (r * (5 / 100) + q) + r * (5 / 100) = r" by (simp add: u_def)
  have u0: "0 \<le> u" using nn by (simp add: u_def)
  have n0: "0 \<le> r * (5 / 100) + q" using q0 rpos by simp
  have p0: "0 \<le> r * (5 / 100)" using rpos by simp
  show ?thesis
    unfolding r_def [symmetric]
    by (intro exI [of _ u] exI [of _ "r * (5 / 100) + q"] exI [of _ "r * (5 / 100)"] conjI G')
       (simp_all only: sum u0 n0 p0)
qed

text \<open>Rounding a non-negative quotient at \<open>p\<close> digits adds at most half a unit of the last digit.\<close>

lemma DivRound_near:
  fixes a b :: rat
  assumes a: "0 \<le> a" and b: "0 < b"
  shows "\<exists>q. decimal_DivRound a b p = Some q \<and> 0 \<le> q \<and> q \<le> a / b + 1 / (2 * 10 ^ p)"
proof -
  define s :: rat where "s = 10 ^ p"
  define x where "x = a / b * s"
  define q0 :: rat where "q0 = of_int \<lfloor>x\<rfloor> / s"
  have s: "0 < s" by (simp add: s_def)
  have x0: "0 \<le> x" using a b s by (simp add: x_def)
  have fl0: "0 \<le> \<lfloor>x\<rfloor>" using x0 by simp
  have q0_nonneg: "0 \<le> q0" using fl0 s by (simp add: q0_def)
  have "of_int \<lfloor>x\<rfloor> \<le> x" by simp
  then have "q0 \<le> x / s" using s by (simp add: q0_def divide_right_mono)
  moreover have xs: "x / s = a / b" using s by (simp add: x_def)
  ultimately have q0_le: "q0 \<le> a / b" by simp
  have rem0: "0 \<le> a - b * q0"
  proof -
    have "b * q0 \<le> b * (a / b)" using q0_le b by (intro mult_left_mono) simp_all
    then show ?thesis using b by simp
  qed
  have QR: "decimal_QuoRem a b p = (q0, a - b * q0)"
    using x0 by (simp add: decimal_QuoRem_def trunc_toward_zero_def q0_def x_def s_def Let_def)
  have sg: "\<not> sgn a * sgn b < 0" using a b by (simp add: sgn_if)
  have half: "0 \<le> 1 / (2 * s)" using s by simp
  show ?thesis
  proof (cases "2 * \<bar>a - b * q0\<bar> * 10 ^ p < \<bar>b\<bar>")
    case True
    then have "decimal_DivRound a b p = Some q0"
      using b QR by (simp add: decimal_DivRound_def)
    moreover have "q0 \<le> a / b + 1 / (2 * s)" using q0_le half by linarith
    ultimately show ?thesis using q0_nonneg by (simp add: s_def)
  next
    case False
    then have eq: "decimal_DivRound a b p = Some (q0 + 1 / 10 ^ p)"
      using b QR sg by (simp add: decimal_DivRound_def)
    have "b \<le> 2 * (a - b * q0) * s" using False rem0 b by (simp add: s_def)
    then have "b / (2 * s) \<le> a - b * q0"
      using s by (simp add: pos_divide_le_eq mult_ac)
    then have "b * (q0 + 1 / (2 * s)) \<le> b * (a / b)"
      using b by (simp add: algebra_simps)
    then have "q0 + 1 / (2 * s) \<le> a / b"
      using b by (simp only: mult_le_cancel_left_pos)
    moreover have "1 / s = 1 / (2 * s) + 1 / (2 * s)" using s by (simp add: field_simps)
    ultimately have "q0 + 1 / s \<le> a / b + 1 / (2 * s)" by linarith
    moreover have "0 \<le> q0 + 1 / s" using q0_nonneg s by simp
    ultimately show ?thesis using eq by (simp add: s_def)
  qed
qed

lemma reward_split_any:
  fixes d r :: rat
  assumes r0: "0 \<le> r" and d0: "0 \<le> d" and dle: "d \<le> 32 * 10 ^ 18"
  shows "\<exists>u n p. GetUserNodePlatformReward d r = Some (u, n, p)
           \<and> 0 \<le> u \<and> 0 \<le> n \<and> 0 \<le> p
           \<and> r \<le> u + n + p \<and> u + n + p - r \<le> 1 / (2 * 10 ^ 16)"
proof (cases "r = 0")
  case True
  then show ?thesis
    by (simp add: GetUserNodePlatformReward_def decimal_IsPositive_def)
next
  case False
  then have rpos: "0 < r" using r0 by simp
  define a where "a = r * (9 / 10) * d"
  define b :: rat where "b = 32 * 10 ^ 18"
  have a0: "0 \<le> a" using rpos d0 by (simp add: a_def)
  have b0: "0 < b" by (simp add: b_def)
  have "d / b \<le> 1" using dle b0 by (simp add: b_def)
  then have "r * (9 / 10) * (d / b) \<le> r * (9 / 10) * 1"
    using rpos by (intro mult_left_mono) simp_all
  then have ab: "a / b \<le> r * (9 / 10)" by (simp add: a_def)
  obtain q where q: "decimal_DivRound a b 16 = Some q" and q0: "0 \<le> q"
    and qle: "q \<le> a / b + 1 / (2 * 10 ^ 16)"
    using DivRound_near [OF a0 b0, of 16] by blast
  have qle': "q \<le> r * (9 / 10) + 1 / (2 * 10 ^ 16)" using qle ab by linarith
  define u' where "u' = r - r * (5 / 100) - (r * (5 / 100) + q)"
  define u where "u = (if u' < 0 then 0 else u')"
  have G: "GetUserNodePlatformReward d r = Some (u, r * (5 / 100) + q, r * (5 / 100))"
    using rpos dle q
    by (simp add: GetUserNodePlatformReward_def decimal_IsPositive_def decimal_GreaterThan_def
        StandardEffectiveBalanceDeci_def decimal_Div_def DivisionPrecision_def decimal_Mul_def
        decimal_Add_def decimal_Sub_def decimal_IsNegative_def Percent5Deci_def Percent90Deci_def
        a_def b_def u_def u'_def Let_def)
  have u0: "0 \<le> u" by (simp add: u_def)
  have n0: "0 \<le> r * (5 / 100) + q" using q0 rpos by simp
  have p0: "0 \<le> r * (5 / 100)" using rpos by simp
  have lo: "r \<le> u + (r * (5 / 100) + q) + r * (5 / 100)"
    by (simp add: u_def u'_def)
  have hi: "u + (r * (5 / 100) + q) + r * (5 / 100) - r \<le> 1 / (2 * 10 ^ 16)"
    using qle' by (simp add: u_def u'_def)
  show ?thesis
    by (intro exI [of _ u] exI [of _ "r * (5 / 100) + q"] exI [of _ "r * (5 / 100)"] conjI G
        u0 n0 p0 lo hi)
qed

text \<open>
  C2, as amended. For every reward \<open>r \<ge> 0\<close> and node deposit \<open>d\<close> with
  \<open>0 \<le> d \<le> 32 * 10 ^ 18\<close>, each component of the triple returned by
  \<open>GetUserNodePlatformReward d r\<close> is non-negative, and the sum of the three is at least
  \<open>r\<close> and exceeds it by at most half a unit of the 16th decimal digit, the rounding of
  \<^verbatim>\<open>Div\<close>. When \<open>r\<close> is a whole number (an amount in wei) the sum equals \<open>r\<close>.
\<close>

theorem reward_split_sum:
  fixes d r :: Decimal
  assumes "0 \<le> r" and "0 \<le> d" and "d \<le> 32 * 10 ^ 18"
  shows "\<exists>userReward nodeReward platformFee.
           GetUserNodePlatformReward d r = Some (userReward, nodeReward, platformFee)
           \<and> 0 \<le> userReward \<and> 0 \<le> nodeReward \<and> 0 \<le> platformFee
           \<and> r \<le> userReward + nodeReward + platformFee
           \<and> userReward + nodeReward + platformFee - r \<le> 1 / (2 * 10 ^ 16)
           \<and> (r \<in> \<int> \<longrightarrow> userReward + nodeReward + platformFee = r)"
proof -
  from reward_split_any [OF assms]
  obtain u n p where G: "GetUserNodePlatformReward d r = Some (u, n, p)"
    and nn: "0 \<le> u" "0 \<le> n" "0 \<le> p"
    and lo: "r \<le> u + n + p" and hi: "u + n + p - r \<le> 1 / (2 * 10 ^ 16)"
    by blast
  have whole: "u + n + p = r" if "r \<in> \<int>"
  proof -
    from that obtain k :: int where k: "r = of_int k" by (rule Ints_cases)
    then have "0 \<le> k" using assms(1) by simp
    from reward_split_int [OF assms(2) assms(3) this]
    obtain u1 n1 p1 where "GetUserNodePlatformReward d (of_int k) = Some (u1, n1, p1)"
      and "u1 + n1 + p1 = of_int k"
      by blast
    then show ?thesis using G k by simp
  qed
  show ?thesis
    using G nn lo hi whole
    by (intro exI [of _ u] exI [of _ n] exI [of _ p]) simp
qed

theorem reward_split_sum_witness:
  "(\<exists>userReward nodeReward platformFee.
     GetUserNodePlatformReward (16 * 10 ^ 18) (10 ^ 18) = Some (userReward, nodeReward, platformFee)
     \<and> 0 \<le> userReward \<and> 0 \<le> nodeReward \<and> 0 \<le> platformFee
     \<and> userReward + nodeReward + platformFee = 10 ^ 18)
   \<and> (\<exists>userReward nodeReward platformFee.
     GetUserNodePlatformReward (32 * 10 ^ 18) (6 / 10 ^ 17) = Some (userReward, nodeReward, platformFee)
     \<and> 0 \<le> userReward \<and> 0 \<le> nodeReward \<and> 0 \<le> platformFee
     \<and> 6 / 10 ^ 17 \<le> userReward + nodeReward + platformFee
     \<and> userReward + nodeReward + platformFee - 6 / 10 ^ 17 \<le> 1 / (2 * 10 ^ 16))"
proof (intro conjI)
  have "(0 :: rat) \<le> 10 ^ 18" and "(0 :: rat) \<le> 16 * 10 ^ 18"
    and "(16 * 10 ^ 18 :: rat) \<le> 32 * 10 ^ 18"
    by simp_all
  from reward_split_sum [OF this]
  show "\<exists>userReward nodeReward platformFee.
     GetUserNodePlatformReward (16 * 10 ^ 18) (10 ^ 18) = Some (userReward, nodeReward, platformFee)
     \<and> 0 \<le> userReward \<and> 0 \<le> nodeReward \<and> 0 \<le> platformFee
     \<and> userReward + nodeReward + platformFee = 10 ^ 18"
    by auto
next
  have "(0 :: rat) \<le> 6 / 10 ^ 17" and "(0 :: rat) \<le> 32 * 10 ^ 18"
    and "(32 * 10 ^ 18 :: rat) \<le> 32 * 10 ^ 18"
    by simp_all
  from reward_split_sum [OF this]
  show "\<exists>userReward nodeReward platformFee.
     GetUserNodePlatformReward (32 * 10 ^ 18) (6 / 10 ^ 17) = Some (userReward, nodeReward, platformFee)
     \<and> 0 \<le> userReward \<and> 0 \<le> nodeReward \<and> 0 \<le> platformFee
     \<and> 6 / 10 ^ 17 \<le> userReward + nodeReward + platformFee
     \<and> userReward + nodeReward + platformFee - 6 / 10 ^ 17 \<le> 1 / (2 * 10 ^ 16)"
    by blast
qed

text \<open>
  The claim as stated fails at \<open>r = 6 * 10 ^ -17\<close> with the full deposit: the quotient
  \<open>5.4 * 10 ^ -17\<close> rounds up to \<open>10 ^ -16\<close>, the user reward is clamped to zero, and
  the node reward and the platform fee alone add up to more than \<open>r\<close>.
\<close>

theorem reward_split_sum_counterexample:
  "(0 :: rat) \<le> 6 / 10 ^ 17 \<and> (0 :: rat) \<le> 32 * 10 ^ 18 \<and> (32 * 10 ^ 18 :: rat) \<le> 32 * 10 ^ 18
   \<and> GetUserNodePlatformReward (32 * 10 ^ 18) (6 / 10 ^ 17)
       = Some (0, 103 / 10 ^ 18, 3 / 10 ^ 18)
   \<and> \<not> ((0 :: rat) + 103 / 10 ^ 18 + 3 / 10 ^ 18 \<le> 6 / 10 ^ 17)"
proof -
  have "GetUserNodePlatformReward (32 * 10 ^ 18) (6 / 10 ^ 17) = Some (0, 103 / 10 ^ 18, 3 / 10 ^ 18)"
    by code_simp
  then show ?thesis by simp
qed

lemma reward_split_zero_deposit:
  "0 < r \<Longrightarrow> GetUserNodePlatformReward 0 r = Some (r * 90 / 100, r * 5 / 100, r * 5 / 100)"
  by (simp add: GetUserNodePlatformReward_def decimal_IsPositive_def decimal_GreaterThan_def
      StandardEffectiveBalanceDeci_def decimal_Div_def DivisionPrecision_def decimal_Mul_def
      decimal_Add_def decimal_Sub_def decimal_IsNegative_def Percent5Deci_def Percent90Deci_def
      decimal_DivRound_def decimal_QuoRem_def trunc_toward_zero_def Let_def)

text \<open>
  C6, as amended. For every reward \<open>r > 0\<close>, \<open>GetUserNodePlatformReward 0 r\<close> returns
  the user reward 90% of \<open>r\<close>, the node reward 5% of \<open>r\<close> and the platform fee 5% of
  \<open>r\<close>, exactly.
\<close>

theorem reward_split_no_deposit:
  fixes r :: Decimal
  assumes "0 < r"
  shows "GetUserNodePlatformReward 0 r = Some (r * 90 / 100, r * 5 / 100, r * 5 / 100)"
  using assms by (rule reward_split_zero_deposit)

theorem reward_split_no_deposit_witness:
  "GetUserNodePlatformReward 0 (10 ^ 18) = Some (9 * 10 ^ 17, 5 * 10 ^ 16, 5 * 10 ^ 16)"
proof -
  have "(0 :: rat) < 10 ^ 18" by simp
  from reward_split_no_deposit [OF this] show ?thesis by simp
qed

text \<open>
  The claim as stated fails at \<open>r = 10 ^ 18\<close>: the user reward is \<open>9 * 10 ^ 17\<close>, which is
  \<open>5 * 10 ^ 16\<close> away from 85% of \<open>r\<close>, far beyond rounding.
\<close>

theorem reward_split_no_deposit_counterexample:
  "GetUserNodePlatformReward 0 (10 ^ 18) = Some (9 * 10 ^ 17, 5 * 10 ^ 16, 5 * 10 ^ 16)
   \<and> \<bar>(9 * 10 ^ 17 :: rat) - 85 / 100 * 10 ^ 18\<bar> = 5 * 10 ^ 16"
  using reward_split_zero_deposit [of "10 ^ 18"] by simp

section \<open>Properties: waiting for a transaction\<close>

lemma retry_step_arith:
  fixes a b c :: nat
  assumes "a < b"
  shows "c + c * (b - (a + 1)) = c * (b - a)"
proof -
  obtain d where d: "b - a = Suc d" using assms by (cases "b - a") simp_all
  then have "b - (a + 1) = d" by simp
  then show ?thesis using d by simp
qed

lemma receiptLoop_found:
  assumes "j \<le> RetryLimit" "sub \<le> j" "\<forall>i<j. isl (TransactionReceipt c h i)"
    "TransactionReceipt c h j = Inr rc"
  shows "receiptLoop c h sub sl = (Inr rc, sl + RetryInterval * (j - sub))"
  using assms
proof (induction "j - sub" arbitrary: sub sl)
  case 0
  then have "sub = j" by simp
  then show ?case using "0.prems" by (simp add: receiptLoop.simps [of c h j])
next
  case (Suc n)
  then have lt: "sub < j" by simp
  then obtain e where e: "TransactionReceipt c h sub = Inl e"
    using Suc.prems(3) by (auto simp: isl_def)
  have "receiptLoop c h (sub + 1) (sl + RetryInterval) = (Inr rc, sl + RetryInterval + RetryInterval * (j - (sub + 1)))"
    using Suc.hyps(2) lt Suc.prems by (intro Suc.hyps(1)) simp_all
  moreover have "RetryInterval + RetryInterval * (j - (sub + 1)) = RetryInterval * (j - sub)"
    using lt by (rule retry_step_arith)
  ultimately show ?case using lt Suc.prems(1) e
    by (simp add: receiptLoop.simps [of c h sub] add.assoc)
qed

lemma receiptLoop_exhausted:
  assumes "\<forall>i\<le>RetryLimit. isl (TransactionReceipt c h i)" "sub \<le> Suc RetryLimit"
  shows "receiptLoop c h sub sl = (Inl (ErrReceiptRetryLimit h), sl + RetryInterval * (Suc RetryLimit - sub))"
  using assms
proof (induction "Suc RetryLimit - sub" arbitrary: sub sl)
  case 0
  then have "sub > RetryLimit" by simp
  then show ?case using 0 by (simp add: receiptLoop.simps [of c h sub])
next
  case (Suc n)
  then have le: "sub \<le> RetryLimit" by simp
  then obtain e where e: "TransactionReceipt c h sub = Inl e"
    using Suc.prems(1) by (auto simp: isl_def)
  have "receiptLoop c h (sub + 1) (sl + RetryInterval)
      = (Inl (ErrReceiptRetryLimit h), sl + RetryInterval + RetryInterval * (Suc RetryLimit - (sub + 1)))"
    using Suc.hyps(2) le Suc.prems by (intro Suc.hyps(1)) simp_all
  moreover have "RetryInterval + RetryInterval * (Suc RetryLimit - (sub + 1)) = RetryInterval * (Suc RetryLimit - sub)"
    using le by (intro retry_step_arith) simp
  ultimately show ?case using le e
    by (simp add: receiptLoop.simps [of c h sub] add.assoc)
qed

lemma waitLoop_pending:
  assumes "k \<le> RetryLimit" "retry \<le> k" "\<forall>i<k. TransactionByHash c h i \<noteq> Inr False"
  shows "waitLoop c h retry sl = waitLoop c h k (sl + RetryInterval * (k - retry))"
  using assms
proof (induction "k - retry" arbitrary: retry sl)
  case 0
  then show ?case by simp
next
  case (Suc n)
  then have lt: "retry < k" by simp
  have step: "waitLoop c h retry sl = waitLoop c h (retry + 1) (sl + RetryInterval)"
    using lt Suc.prems(1,3) 
    by (subst waitLoop.simps) (auto split: sum.splits)
  have "waitLoop c h (retry + 1) (sl + RetryInterval)
     = waitLoop c h k (sl + RetryInterval + RetryInterval * (k - (retry + 1)))"
    using Suc.hyps(2) lt Suc.prems by (intro Suc.hyps(1)) simp_all
  moreover have "RetryInterval + RetryInterval * (k - (retry + 1)) = RetryInterval * (k - retry)"
    using lt by (rule retry_step_arith)
  ultimately show ?case using step by (simp add: add.assoc)
qed

lemma waitLoop_exhausted:
  assumes "\<forall>i\<le>RetryLimit. TransactionByHash c h i \<noteq> Inr False"
  shows "waitLoop c h 0 0 = (0, Some (ErrWaitTxRetryLimit h), RetryInterval * Suc RetryLimit)"
proof -
  have a: "waitLoop c h 0 0 = waitLoop c h RetryLimit (RetryInterval * RetryLimit)"
    using waitLoop_pending [of RetryLimit 0 c h 0] assms by simp
  have b: "waitLoop c h RetryLimit sl = waitLoop c h (Suc RetryLimit) (sl + RetryInterval)" for sl
    using assms by (subst waitLoop.simps) (auto split: sum.splits)
  have c: "waitLoop c h (Suc RetryLimit) sl = (0, Some (ErrWaitTxRetryLimit h), sl)" for sl
    by (subst waitLoop.simps) simp
  show ?thesis by (simp add: a b c)
qed

lemma waitLoop_settled:
  assumes "k \<le> RetryLimit" "settledAt c h k"
  shows "waitLoop c h 0 0 =
     (case receiptLoop c h 0 (RetryInterval * k) of
        (Inl e, sl') \<Rightarrow> (0, Some e, sl')
      | (Inr receipt, sl') \<Rightarrow>
          if Status receipt = 1 then (big_Uint64 (BlockNumber receipt), None, sl')
          else (0, Some (ErrTxFailed h), sl'))"
proof -
  have a: "waitLoop c h 0 0 = waitLoop c h k (RetryInterval * k)"
    using waitLoop_pending [of k 0 c h 0] assms by (simp add: settledAt_def)
  show ?thesis unfolding a using assms
    by (subst waitLoop.simps) (simp add: settledAt_def)
qed

text \<open>
  C4. \<open>WaitTxOkCommon\<close> polls \<^verbatim>\<open>TransactionByHash\<close> until the transaction is not
  pending and then \<^verbatim>\<open>TransactionReceipt\<close> until the receipt is there, sleeping 6
  seconds after each failed poll; each loop gives up after its first call and 600
  retries. With the first "not pending" at call \<open>k\<close> and the receipt at call \<open>j\<close>, a
  receipt of status 1 gives its block number, no error and no shutdown signal; a
  receipt of another status, or either loop running out of retries, gives an error, and
  the shutdown signal is sent exactly when an error is returned.
\<close>

theorem WaitTxOkCommon_outcomes:
  "(k \<le> RetryLimit \<and> settledAt c h k \<and> j \<le> RetryLimit \<and> receiptAt c h j rc \<and> Status rc = 1 \<longrightarrow>
      WaitTxOkCommon c h = \<lparr>blockNumber = big_Uint64 (BlockNumber rc), err = None, shutdown = False,
         slept = RetryInterval * (k + j)\<rparr>)
   \<and> (k \<le> RetryLimit \<and> settledAt c h k \<and> j \<le> RetryLimit \<and> receiptAt c h j rc \<and> Status rc \<noteq> 1 \<longrightarrow>
      WaitTxOkCommon c h = \<lparr>blockNumber = 0, err = Some (ErrTxFailed h), shutdown = True,
         slept = RetryInterval * (k + j)\<rparr>)
   \<and> ((\<forall>i\<le>RetryLimit. TransactionByHash c h i \<noteq> Inr False) \<longrightarrow>
      WaitTxOkCommon c h = \<lparr>blockNumber = 0, err = Some (ErrWaitTxRetryLimit h), shutdown = True,
         slept = RetryInterval * (RetryLimit + 1)\<rparr>)
   \<and> (k \<le> RetryLimit \<and> settledAt c h k \<and> (\<forall>i\<le>RetryLimit. isl (TransactionReceipt c h i)) \<longrightarrow>
      WaitTxOkCommon c h = \<lparr>blockNumber = 0, err = Some (ErrReceiptRetryLimit h), shutdown = True,
         slept = RetryInterval * (k + (RetryLimit + 1))\<rparr>)
   \<and> shutdown (WaitTxOkCommon c h) = (err (WaitTxOkCommon c h) \<noteq> None)"
proof (intro conjI impI)
  assume a: "k \<le> RetryLimit \<and> settledAt c h k \<and> j \<le> RetryLimit \<and> receiptAt c h j rc \<and> Status rc = 1"
  then have "receiptLoop c h 0 (RetryInterval * k) = (Inr rc, RetryInterval * k + RetryInterval * (j - 0))"
    by (intro receiptLoop_found) (simp_all add: receiptAt_def)
  then show "WaitTxOkCommon c h = \<lparr>blockNumber = big_Uint64 (BlockNumber rc), err = None, shutdown = False,
         slept = RetryInterval * (k + j)\<rparr>"
    using a waitLoop_settled [of k c h] by (simp add: WaitTxOkCommon_def algebra_simps)
next
  assume a: "k \<le> RetryLimit \<and> settledAt c h k \<and> j \<le> RetryLimit \<and> receiptAt c h j rc \<and> Status rc \<noteq> 1"
  then have "receiptLoop c h 0 (RetryInterval * k) = (Inr rc, RetryInterval * k + RetryInterval * (j - 0))"
    by (intro receiptLoop_found) (simp_all add: receiptAt_def)
  then show "WaitTxOkCommon c h = \<lparr>blockNumber = 0, err = Some (ErrTxFailed h), shutdown = True,
         slept = RetryInterval * (k + j)\<rparr>"
    using a waitLoop_settled [of k c h] by (simp add: WaitTxOkCommon_def algebra_simps)
next
  assume "\<forall>i\<le>RetryLimit. TransactionByHash c h i \<noteq> Inr False"
  then show "WaitTxOkCommon c h = \<lparr>blockNumber = 0, err = Some (ErrWaitTxRetryLimit h), shutdown = True,
         slept = RetryInterval * (RetryLimit + 1)\<rparr>"
    using waitLoop_exhausted [of c h] by (simp add: WaitTxOkCommon_def)
next
  assume a: "k \<le> RetryLimit \<and> settledAt c h k \<and> (\<forall>i\<le>RetryLimit. isl (TransactionReceipt c h i))"
  then have "receiptLoop c h 0 (RetryInterval * k)
      = (Inl (ErrReceiptRetryLimit h), RetryInterval * k + RetryInterval * (Suc RetryLimit - 0))"
    by (intro receiptLoop_exhausted) simp_all
  then show "WaitTxOkCommon c h = \<lparr>blockNumber = 0, err = Some (ErrReceiptRetryLimit h), shutdown = True,
         slept = RetryInterval * (k + (RetryLimit + 1))\<rparr>"
    using a waitLoop_settled [of k c h] by (simp add: WaitTxOkCommon_def algebra_simps)
next
  show "shutdown (WaitTxOkCommon c h) = (err (WaitTxOkCommon c h) \<noteq> None)"
    by (simp add: WaitTxOkCommon_def split: prod.splits)
qed


theorem WaitTxOkCommon_outcomes_witness:
  "WaitTxOkCommon (client_mined 1) [1]
     = \<lparr>blockNumber = 100, err = None, shutdown = False, slept = 18\<rparr>
   \<and> WaitTxOkCommon (client_mined 0) [1]
     = \<lparr>blockNumber = 0, err = Some (ErrTxFailed [1]), shutdown = True, slept = 18\<rparr>
   \<and> WaitTxOkCommon client_pending [1]
     = \<lparr>blockNumber = 0, err = Some (ErrWaitTxRetryLimit [1]), shutdown = True, slept = 3606\<rparr>
   \<and> WaitTxOkCommon client_no_receipt [1]
     = \<lparr>blockNumber = 0, err = Some (ErrReceiptRetryLimit [1]), shutdown = True, slept = 3606\<rparr>"
proof (intro conjI)
  show "WaitTxOkCommon (client_mined 1) [1]
     = \<lparr>blockNumber = 100, err = None, shutdown = False, slept = 18\<rparr>"
    using WaitTxOkCommon_outcomes [where k = 2 and j = 1 and c = "client_mined 1" and h = "[1]"
        and rc = "\<lparr>Status = 1, BlockNumber = 100\<rparr>"]
    by (simp add: settledAt_def receiptAt_def client_mined_def RetryLimit_def RetryInterval_def
        big_Uint64_def)
next
  show "WaitTxOkCommon (client_mined 0) [1]
     = \<lparr>blockNumber = 0, err = Some (ErrTxFailed [1]), shutdown = True, slept = 18\<rparr>"
    using WaitTxOkCommon_outcomes [where k = 2 and j = 1 and c = "client_mined 0" and h = "[1]"
        and rc = "\<lparr>Status = 0, BlockNumber = 100\<rparr>"]
    by (simp add: settledAt_def receiptAt_def client_mined_def RetryLimit_def RetryInterval_def)
next
  show "WaitTxOkCommon client_pending [1]
     = \<lparr>blockNumber = 0, err = Some (ErrWaitTxRetryLimit [1]), shutdown = True, slept = 3606\<rparr>"
    using WaitTxOkCommon_outcomes [where c = client_pending and h = "[1]"]
    by (simp add: client_pending_def RetryLimit_def RetryInterval_def)
next
  show "WaitTxOkCommon client_no_receipt [1]
     = \<lparr>blockNumber = 0, err = Some (ErrReceiptRetryLimit [1]), shutdown = True, slept = 3606\<rparr>"
    using WaitTxOkCommon_outcomes [where k = 0 and c = client_no_receipt and h = "[1]"]
    by (simp add: settledAt_def client_no_receipt_def RetryLimit_def RetryInterval_def)
qed

section \<open>Properties: the last line of a file\<close>

lemma readLoop_scan:
  assumes "bs = pre @ suf" "suf \<noteq> []" "pre \<noteq> []"
  shows "readLoop bs (- int (length suf)) line =
         Inr (rev (takeWhile (\<lambda>c. \<not> is_newline c) (rev pre)) @ line)"
  using assms
proof (induction pre arbitrary: suf line rule: rev_induct)
  case Nil
  then show ?case by simp
next
  case (snoc x xs)
  have seek: "f_Seek_End bs (- int (length suf) - 1) = Inr (length xs)"
    using snoc.prems(1) by (simp add: f_Seek_End_def)
  have rd: "f_Read bs (length xs) = Inr x"
    using snoc.prems(1) by (simp add: f_Read_def nth_append)
  have ne: "- int (length suf) - 1 \<noteq> - 1" using snoc.prems(2) by simp
  show ?case
  proof (cases "is_newline x")
    case True
    then show ?thesis using seek rd ne
      by (subst readLoop.simps) (simp add: is_newline_def Let_def)
  next
    case nl: False
    show ?thesis
    proof (cases "xs = []")
      case True
      then have "- int (length suf) - 1 = - int (length bs)" using snoc.prems(1) by simp
      then show ?thesis using seek rd ne nl True
        by (subst readLoop.simps) (simp add: is_newline_def Let_def)
    next
      case False
      then have "- int (length suf) - 1 \<noteq> - int (length bs)" using snoc.prems(1) by simp
      then have "readLoop bs (- int (length suf)) line = readLoop bs (- int (length suf) - 1) (x # line)"
        using seek rd ne nl
        by (subst readLoop.simps) (simp add: is_newline_def Let_def)
      also have "\<dots> = readLoop bs (- int (length (x # suf))) (x # line)"
        by (rule arg_cong [where f = "\<lambda>k. readLoop bs k (x # line)"]) simp
      also have "\<dots> = Inr (rev (takeWhile (\<lambda>c. \<not> is_newline c) (rev xs)) @ x # line)"
        using snoc.prems(1) False by (intro snoc.IH) simp_all
      finally show ?thesis using nl by simp
    qed
  qed
qed

lemma ReadLastLine_nonempty:
  assumes "bs \<noteq> []"
  shows "ReadLastLine (file_of bs) =
         Inr (rev (takeWhile (\<lambda>c. \<not> is_newline c) (rev (butlast bs))) @ [last bs])"
proof -
  have seek: "f_Seek_End bs (0 - 1) = Inr (length bs - 1)"
    using assms by (cases bs) (simp_all add: f_Seek_End_def)
  have rd: "f_Read bs (length bs - 1) = Inr (last bs)"
    using assms by (simp add: f_Read_def last_conv_nth)
  show ?thesis
  proof (cases "butlast bs = []")
    case True
    then have "- 1 = - int (length bs)" using assms by (cases bs) (simp_all split: if_splits)
    then have "readLoop bs 0 [] = Inr [last bs]"
      using seek rd by (subst readLoop.simps) (simp add: Let_def)
    then show ?thesis using assms True by (simp add: ReadLastLine_def file_of_def)
  next
    case False
    then have "length bs \<noteq> 1" using assms by (cases bs) auto
    then have "readLoop bs 0 [] = readLoop bs (- int (length [last bs])) [last bs]"
      using seek rd by (subst readLoop.simps) (simp add: Let_def)
    also have "\<dots> = Inr (rev (takeWhile (\<lambda>c. \<not> is_newline c) (rev (butlast bs))) @ [last bs])"
      using assms False by (intro readLoop_scan) simp_all
    finally show ?thesis using assms by (simp add: ReadLastLine_def file_of_def)
  qed
qed

text \<open>
  C7, as amended. On a file that ends in \<open>alpha\<close>, newline, \<open>beta\<close>, newline,
  \<open>ReadLastLine\<close> returns \<open>beta\<close> followed by the newline: the last byte of the file
  is always part of the result. On an empty file it returns the empty string. On a
  file without a newline at its end it returns the last textual line: the bytes after
  the last newline or carriage return, or the whole file when there is none.
\<close>

theorem ReadLastLine_cases:
  "ReadLastLine (file_of (p @ ''alpha'' @ [CHR 0x0A] @ ''beta'' @ [CHR 0x0A])) = Inr (''beta'' @ [CHR 0x0A])
   \<and> ReadLastLine (file_of '''') = Inr ''''
   \<and> (l \<noteq> [] \<and> (\<forall>c \<in> set l. \<not> is_newline c) \<longrightarrow> ReadLastLine (file_of l) = Inr l)
   \<and> (l \<noteq> [] \<and> (\<forall>c \<in> set l. \<not> is_newline c) \<and> is_newline n \<longrightarrow> ReadLastLine (file_of (p @ [n] @ l)) = Inr l)"
proof (intro conjI impI)
  have "butlast (p @ ''alpha'' @ [CHR 0x0A] @ ''beta'' @ [CHR 0x0A]) = p @ ''alpha'' @ [CHR 0x0A] @ ''beta''"
    by (simp add: butlast_append)
  then show "ReadLastLine (file_of (p @ ''alpha'' @ [CHR 0x0A] @ ''beta'' @ [CHR 0x0A])) = Inr (''beta'' @ [CHR 0x0A])"
    by (subst ReadLastLine_nonempty) (simp_all add: is_newline_def)
next
  show "ReadLastLine (file_of '''') = Inr ''''"
    by (simp add: ReadLastLine_def file_of_def)
next
  assume a: "l \<noteq> [] \<and> (\<forall>c\<in>set l. \<not> is_newline c)"
  then have "\<forall>c \<in> set (rev (butlast l)). \<not> is_newline c"
    by (auto dest: in_set_butlastD)
  then have tw: "takeWhile (\<lambda>c. \<not> is_newline c) (rev (butlast l)) = rev (butlast l)"
    by (simp only: takeWhile_eq_all_conv) 
  show "ReadLastLine (file_of l) = Inr l"
    using a by (simp add: ReadLastLine_nonempty tw)
next
  assume a: "l \<noteq> [] \<and> (\<forall>c\<in>set l. \<not> is_newline c) \<and> is_newline n"
  then have bl: "butlast (p @ n # l) = p @ n # butlast l" and la: "last (p @ n # l) = last l"
    by (simp_all add: butlast_append)
  have "\<forall>c \<in> set (rev (butlast l)). \<not> is_newline c"
    using a by (auto dest: in_set_butlastD)
  then have tw: "takeWhile (\<lambda>c. \<not> is_newline c) (rev (butlast l) @ n # rev p) = rev (butlast l)"
    using a by (simp del: set_rev)
  show "ReadLastLine (file_of (p @ [n] @ l)) = Inr l"
    using a by (simp add: ReadLastLine_nonempty bl la tw)
qed


theorem ReadLastLine_cases_witness:
  "ReadLastLine (file_of (''gamma'' @ [CHR 0x0A] @ ''alpha'' @ [CHR 0x0A] @ ''beta'' @ [CHR 0x0A]))
     = Inr (''beta'' @ [CHR 0x0A])
   \<and> ReadLastLine (file_of ''beta'') = Inr ''beta''
   \<and> ReadLastLine (file_of (''alpha'' @ [CHR 0x0D] @ ''beta'')) = Inr ''beta''"
  using ReadLastLine_cases [where p = "''gamma'' @ [CHR 0x0A]" and l = "''beta''" and n = "CHR 0x0A"]
    ReadLastLine_cases [where p = "''alpha''" and l = "''beta''" and n = "CHR 0x0D"]
  by (simp add: is_newline_def)

text \<open>
  The claim as stated fails on the file it names: the result is \<open>beta\<close> with the
  newline, not \<open>beta\<close>.
\<close>

theorem ReadLastLine_counterexample:
  "ReadLastLine (file_of (''alpha'' @ [CHR 0x0A] @ ''beta'' @ [CHR 0x0A])) = Inr (''beta'' @ [CHR 0x0A])
   \<and> ReadLastLine (file_of (''alpha'' @ [CHR 0x0A] @ ''beta'' @ [CHR 0x0A])) \<noteq> Inr ''beta''"
  by (simp add: ReadLastLine_nonempty is_newline_def)

section \<open>Properties: the service manager\<close>

lemma map_of_srvs_Store:
  "map_of (srvs_Store k v al) k' = (if k' = k then Some v else map_of al k')"
  by (induction al) auto

lemma map_of_srvs_Delete:
  "map_of (srvs_Delete k al) k' = (if k' = k then None else map_of al k')"
  by (induction al) (auto simp: srvs_Delete_def)

lemma srvs_keys_dom: "srvs_keys m = dom (map_of (srvs m))"
  by (simp add: srvs_keys_def dom_map_of_conv_image_fst)

lemma newAndStartServiceFor_ok:
  assumes "newAndStartServiceFor w m t = (m', Inr srv)"
  shows "srvs m' = srvs_Store t srv (srvs m)"
    and "events m' = events m @ [EvNewService (nextRef m), EvStart t srv]"
  using assms
  by (auto simp: newAndStartServiceFor_def Let_def split: sum.splits option.splits)

text \<open>What the first loop leaves when it ends without error.\<close>

lemma addLoop_ok:
  assumes "addLoop w ts m = (m', None)"
  shows "\<exists>evs. events m' = events m @ evs
    \<and> (\<forall>t. t \<notin> set ts \<or> map_of (srvs m) t \<noteq> None \<longrightarrow> map_of (srvs m') t = map_of (srvs m) t)
    \<and> (\<forall>t \<in> set ts. map_of (srvs m) t = None \<longrightarrow>
          (\<exists>srv. map_of (srvs m') t = Some srv \<and> EvStart t srv \<in> set evs))
    \<and> (\<forall>t srv. EvStart t srv \<in> set evs \<longrightarrow> t \<in> set ts \<and> map_of (srvs m) t = None)
    \<and> (\<forall>t srv. EvStop t srv \<notin> set evs)"
  using assms
proof (induction ts arbitrary: m)
  case Nil
  then show ?case by simp
next
  case (Cons t ts)
  show ?case
  proof (cases "map_of (srvs m) t")
    case (Some sv)
    then have "addLoop w ts m = (m', None)" using Cons.prems by (simp add: srvs_Load_def)
    from Cons.IH [OF this] obtain evs where evs: "events m' = events m @ evs"
      and same: "\<forall>t. t \<notin> set ts \<or> map_of (srvs m) t \<noteq> None \<longrightarrow> map_of (srvs m') t = map_of (srvs m) t"
      and new: "\<forall>t \<in> set ts. map_of (srvs m) t = None \<longrightarrow>
          (\<exists>srv. map_of (srvs m') t = Some srv \<and> EvStart t srv \<in> set evs)"
      and starts: "\<forall>t srv. EvStart t srv \<in> set evs \<longrightarrow> t \<in> set ts \<and> map_of (srvs m) t = None"
      and stops: "\<forall>t srv. EvStop t srv \<notin> set evs"
      by blast
    show ?thesis
    proof (intro exI [of _ evs] conjI)
      show "events m' = events m @ evs" by (rule evs)
      show "\<forall>t'. t' \<notin> set (t # ts) \<or> map_of (srvs m) t' \<noteq> None \<longrightarrow> map_of (srvs m') t' = map_of (srvs m) t'"
        using same by auto
      show "\<forall>t' \<in> set (t # ts). map_of (srvs m) t' = None \<longrightarrow>
          (\<exists>srv. map_of (srvs m') t' = Some srv \<and> EvStart t' srv \<in> set evs)"
        using new Some by auto
      show "\<forall>t' srv. EvStart t' srv \<in> set evs \<longrightarrow> t' \<in> set (t # ts) \<and> map_of (srvs m) t' = None"
        using starts by auto
      show "\<forall>t srv. EvStop t srv \<notin> set evs" by (rule stops)
    qed
  next
    case None
    then obtain m1 srv where n: "newAndStartServiceFor w m t = (m1, Inr srv)"
      and rest: "addLoop w ts m1 = (m', None)"
      using Cons.prems by (auto simp: srvs_Load_def split: prod.splits sum.splits)
    have ev1: "events m1 = events m @ [EvNewService (nextRef m), EvStart t srv]"
      by (rule newAndStartServiceFor_ok [OF n])
    have map1: "map_of (srvs m1) t' = (if t' = t then Some srv else map_of (srvs m) t')" for t'
      by (simp add: newAndStartServiceFor_ok(1) [OF n] map_of_srvs_Store)
    from Cons.IH [OF rest] obtain evs where evs: "events m' = events m1 @ evs"
      and same: "\<forall>t. t \<notin> set ts \<or> map_of (srvs m1) t \<noteq> None \<longrightarrow> map_of (srvs m') t = map_of (srvs m1) t"
      and new: "\<forall>t \<in> set ts. map_of (srvs m1) t = None \<longrightarrow>
          (\<exists>srv. map_of (srvs m') t = Some srv \<and> EvStart t srv \<in> set evs)"
      and starts: "\<forall>t srv. EvStart t srv \<in> set evs \<longrightarrow> t \<in> set ts \<and> map_of (srvs m1) t = None"
      and stops: "\<forall>t srv. EvStop t srv \<notin> set evs"
      by blast
    let ?evs = "[EvNewService (nextRef m), EvStart t srv] @ evs"
    show ?thesis
    proof (intro exI [of _ ?evs] conjI)
      show "events m' = events m @ ?evs" by (simp add: evs ev1)
      show "\<forall>t'. t' \<notin> set (t # ts) \<or> map_of (srvs m) t' \<noteq> None \<longrightarrow> map_of (srvs m') t' = map_of (srvs m) t'"
      proof (intro allI impI)
        fix t' assume a: "t' \<notin> set (t # ts) \<or> map_of (srvs m) t' \<noteq> None"
        then have ne: "t' \<noteq> t" using None by auto
        then have "t' \<notin> set ts \<or> map_of (srvs m1) t' \<noteq> None" using a map1 by auto
        then show "map_of (srvs m') t' = map_of (srvs m) t'" using same map1 ne by simp
      qed
      show "\<forall>t' \<in> set (t # ts). map_of (srvs m) t' = None \<longrightarrow>
          (\<exists>srv'. map_of (srvs m') t' = Some srv' \<and> EvStart t' srv' \<in> set ?evs)"
      proof (intro ballI impI)
        fix t' assume a: "t' \<in> set (t # ts)" "map_of (srvs m) t' = None"
        show "\<exists>srv'. map_of (srvs m') t' = Some srv' \<and> EvStart t' srv' \<in> set ?evs"
        proof (cases "t' = t")
          case True
          then have "map_of (srvs m') t' = Some srv" using same map1 by simp
          then show ?thesis using True by auto
        next
          case False
          then have "t' \<in> set ts" "map_of (srvs m1) t' = None" using a map1 by auto
          then show ?thesis using new by auto
        qed
      qed
      show "\<forall>t' srv'. EvStart t' srv' \<in> set ?evs \<longrightarrow> t' \<in> set (t # ts) \<and> map_of (srvs m) t' = None"
      proof (intro allI impI)
        fix t' srv' assume "EvStart t' srv' \<in> set ?evs"
        then consider "t' = t" | "EvStart t' srv' \<in> set evs" by auto
        then show "t' \<in> set (t # ts) \<and> map_of (srvs m) t' = None"
        proof cases
          case 1 then show ?thesis using None by simp
        next
          case 2
          then have "t' \<in> set ts" "map_of (srvs m1) t' = None" using starts by auto
          then show ?thesis using map1 [of t'] by (auto split: if_splits)
        qed
      qed
      show "\<forall>t srv. EvStop t srv \<notin> set ?evs" using stops by simp
    qed
  qed
qed

text \<open>What the second loop leaves.\<close>

lemma removeLoop_result:
  "srvs (removeLoop tokenList entries m) = filter (\<lambda>(k, v). k \<in> set tokenList \<or> k \<notin> fst ` set entries) (srvs m)
   \<and> events (removeLoop tokenList entries m)
       = events m @ map (\<lambda>(k, v). EvStop k v) (filter (\<lambda>(k, v). k \<notin> set tokenList) entries)"
proof (induction entries arbitrary: m)
  case Nil
  then show ?case by simp
next
  case (Cons e entries)
  obtain k v where e: "e = (k, v)" by (cases e)
  show ?case
  proof (cases "k \<in> set tokenList")
    case True
    have "filter (\<lambda>(k', v'). k' \<in> set tokenList \<or> k' \<notin> fst ` set ((k, v) # entries)) (srvs m)
        = filter (\<lambda>(k', v'). k' \<in> set tokenList \<or> k' \<notin> fst ` set entries) (srvs m)"
      using True by (intro filter_cong) auto
    then show ?thesis using True Cons.IH [of m] by (simp add: e)
  next
    case False
    have "filter (\<lambda>(k', v'). k' \<in> set tokenList \<or> k' \<notin> fst ` set ((k, v) # entries)) (srvs m)
        = filter (\<lambda>(k', v'). k' \<in> set tokenList \<or> k' \<notin> fst ` set entries) (srvs_Delete k (srvs m))"
      using False unfolding srvs_Delete_def filter_filter by (intro filter_cong) auto
    then show ?thesis
      using False Cons.IH [of "m\<lparr>srvs := srvs_Delete k (srvs m), events := events m @ [EvStop k v]\<rparr>"]
      by (simp add: e)
  qed
qed

lemma map_of_filter_keys:
  "map_of (filter (\<lambda>(k, v). P k) al) k' = (if P k' then map_of al k' else None)"
  by (induction al) auto


text \<open>
  C8. After a pass of \<open>syncEntrustedLsdTokens\<close> that returns no error, in which the
  factory returned the tokens \<open>S\<close>: the keys of the services map are the strings of
  \<open>S\<close>; a service was started, and is in the map, for every token of \<open>S\<close> that had
  none; every service whose token is not in \<open>S\<close> was stopped and is no longer in the
  map; and the service of a token that was in the map and is in \<open>S\<close> is the same as
  before, neither stopped nor started.
\<close>

theorem syncEntrustedLsdTokens_reconciles:
  assumes run: "syncEntrustedLsdTokens w m = (m', None)"
      and factory: "GetEntrustedLsdTokens w = Inr tokens"
  shows "srvs_keys m' = Address_String w ` set tokens
    \<and> (\<forall>t \<in> Address_String w ` set tokens. srvs_Load (srvs m) t = None \<longrightarrow>
          (\<exists>srv. srvs_Load (srvs m') t = Some srv \<and> EvStart t srv \<in> set (new_events m m')))
    \<and> (\<forall>t srv. srvs_Load (srvs m) t = Some srv \<and> t \<notin> Address_String w ` set tokens \<longrightarrow>
          srvs_Load (srvs m') t = None \<and> EvStop t srv \<in> set (new_events m m'))
    \<and> (\<forall>t srv. srvs_Load (srvs m) t = Some srv \<and> t \<in> Address_String w ` set tokens \<longrightarrow>
          srvs_Load (srvs m') t = Some srv
          \<and> (\<forall>srv'. EvStop t srv' \<notin> set (new_events m m') \<and> EvStart t srv' \<notin> set (new_events m m')))"
proof -
  define tokenList where "tokenList = map (Address_String w) tokens"
  have S: "Address_String w ` set tokens = set tokenList" by (simp add: tokenList_def)
  obtain m1 where add: "addLoop w tokenList m = (m1, None)"
    and m': "m' = removeLoop tokenList (srvs m1) m1"
    using run factory
    by (auto simp: syncEntrustedLsdTokens_def tokenList_def Let_def
        split: option.splits sum.splits prod.splits)
  from addLoop_ok [OF add] obtain evs where evs: "events m1 = events m @ evs"
    and same: "\<forall>t. t \<notin> set tokenList \<or> map_of (srvs m) t \<noteq> None \<longrightarrow> map_of (srvs m1) t = map_of (srvs m) t"
    and new: "\<forall>t \<in> set tokenList. map_of (srvs m) t = None \<longrightarrow>
          (\<exists>srv. map_of (srvs m1) t = Some srv \<and> EvStart t srv \<in> set evs)"
    and starts: "\<forall>t srv. EvStart t srv \<in> set evs \<longrightarrow> t \<in> set tokenList \<and> map_of (srvs m) t = None"
    and stops: "\<forall>t srv. EvStop t srv \<notin> set evs"
    by blast
  have "srvs m' = filter (\<lambda>(k, v). k \<in> set tokenList \<or> k \<notin> fst ` set (srvs m1)) (srvs m1)"
    using removeLoop_result [of tokenList "srvs m1" m1] by (simp add: m')
  also have "\<dots> = filter (\<lambda>(k, v). k \<in> set tokenList) (srvs m1)"
    by (intro filter_cong) force+
  finally have srvs': "srvs m' = filter (\<lambda>(k, v). k \<in> set tokenList) (srvs m1)" .
  have map': "map_of (srvs m') t = (if t \<in> set tokenList then map_of (srvs m1) t else None)" for t
    unfolding srvs' by (rule map_of_filter_keys)
  let ?stopped = "map (\<lambda>(k, v). EvStop k v) (filter (\<lambda>(k, v). k \<notin> set tokenList) (srvs m1))"
  have "events m' = events m @ evs @ ?stopped"
    using removeLoop_result [of tokenList "srvs m1" m1] by (simp add: m' evs)
  then have nev: "new_events m m' = evs @ ?stopped" by (simp add: new_events_def)
  have in_m1: "map_of (srvs m1) t \<noteq> None" if "t \<in> set tokenList" for t
  proof (cases "map_of (srvs m) t")
    case None
    then show ?thesis using new that by auto
  next
    case (Some sv)
    then show ?thesis using same by auto
  qed
  have keys: "srvs_keys m' = set tokenList"
    unfolding srvs_keys_dom using in_m1 by (auto simp: map' dom_def split: if_splits)
  have started: "\<exists>srv. srvs_Load (srvs m') t = Some srv \<and> EvStart t srv \<in> set (new_events m m')"
    if "t \<in> set tokenList" "srvs_Load (srvs m) t = None" for t
    using that new by (auto simp: srvs_Load_def map' nev)
  have stopped: "srvs_Load (srvs m') t = None \<and> EvStop t srv \<in> set (new_events m m')"
    if "srvs_Load (srvs m) t = Some srv" "t \<notin> set tokenList" for t srv
  proof -
    have "map_of (srvs m1) t = Some srv" using that same by (simp add: srvs_Load_def)
    then have "(t, srv) \<in> set (srvs m1)" by (rule map_of_SomeD)
    then have "EvStop t srv \<in> set ?stopped" using that(2) by force
    then show ?thesis using that(2) by (simp add: srvs_Load_def map' nev)
  qed
  have kept: "srvs_Load (srvs m') t = Some srv
      \<and> (\<forall>srv'. EvStop t srv' \<notin> set (new_events m m') \<and> EvStart t srv' \<notin> set (new_events m m'))"
    if "srvs_Load (srvs m) t = Some srv" "t \<in> set tokenList" for t srv
  proof -
    have "map_of (srvs m1) t = Some srv" using that same by (simp add: srvs_Load_def)
    then have 1: "srvs_Load (srvs m') t = Some srv" using that(2) by (simp add: srvs_Load_def map')
    have 2: "EvStop t srv' \<notin> set (new_events m m')" for srv'
      using stops that(2) by (auto simp: nev)
    have 3: "EvStart t srv' \<notin> set (new_events m m')" for srv'
      using starts that(1) by (auto simp: nev srvs_Load_def)
    show ?thesis using 1 2 3 by blast
  qed
  show ?thesis
    unfolding S using keys started stopped kept by blast
qed

theorem syncEntrustedLsdTokens_reconciles_witness:
  "srvs_keys (fst (syncEntrustedLsdTokens (example_manager_world [1, 3]) example_manager))
     = {''0x01'', ''0x03''}
   \<and> srvs_Load (srvs (fst (syncEntrustedLsdTokens (example_manager_world [1, 3]) example_manager))) ''0x01''
     = Some (example_service\<lparr>srvCfg := 1\<rparr>)
   \<and> srvs_Load (srvs (fst (syncEntrustedLsdTokens (example_manager_world [1, 3]) example_manager))) ''0x02''
     = None"
proof -
  let ?w = "example_manager_world [1, 3]"
  let ?m' = "fst (syncEntrustedLsdTokens ?w example_manager)"
  have "snd (syncEntrustedLsdTokens ?w example_manager) = None"
    by code_simp
  then have run: "syncEntrustedLsdTokens ?w example_manager = (?m', None)"
    by (simp add: prod_eq_iff)
  have factory: "GetEntrustedLsdTokens ?w = Inr [1, 3]"
    by (simp add: example_manager_world_def)
  have 1: "srvs_Load (srvs example_manager) ''0x01'' = Some (example_service\<lparr>srvCfg := 1\<rparr>)"
    and 2: "srvs_Load (srvs example_manager) ''0x02'' = Some (example_service\<lparr>srvCfg := 2\<rparr>)"
    by (simp_all add: example_manager_def srvs_Load_def)
  have S: "Address_String ?w ` set [1, 3] = {''0x01'', ''0x03''}"
    by (auto simp: example_manager_world_def example_Address_String_def)
  note inst = syncEntrustedLsdTokens_reconciles [OF run factory, unfolded S]
  have a: "srvs_keys ?m' = {''0x01'', ''0x03''}" using inst by blast
  have b: "srvs_Load (srvs ?m') ''0x01'' = Some (example_service\<lparr>srvCfg := 1\<rparr>)"
    using inst 1 by blast
  have c: "srvs_Load (srvs ?m') ''0x02'' = None"
    using inst 2 by auto
  show ?thesis using a b c by blast
qed

text \<open>
  C10. \<open>newAndStartServiceFor\<close> copies the manager's configuration, replaces only
  \<open>Contracts.LsdTokenAddress\<close> in the copy by the token, and stores the copy at a fresh
  address, different from the manager's. The service is the answer of \<^verbatim>\<open>NewService\<close>
  on that copy, keeping that address: it is what the call starts, returns and stores
  under the token, and the call fails exactly when \<^verbatim>\<open>NewService\<close> on the copy or
  \<^verbatim>\<open>Start\<close> of that service fails. The manager's pointer, the configuration it points
  to (its \<open>LsdTokenAddress\<close> included) and every other configuration in the store are as
  before the call.
\<close>

theorem newAndStartServiceFor_config:
  fixes m :: ServiceManager and lsdToken :: string
  defines "srvConfig \<equiv>
    (heap m (cfg m))\<lparr>Contracts := (Contracts (heap m (cfg m)))\<lparr>LsdTokenAddress := lsdToken\<rparr>\<rparr>"
  assumes "cfg m < nextRef m" and "newAndStartServiceFor w m lsdToken = (m', r)"
  shows "cfg m' = cfg m \<and> heap m' (cfg m') = heap m (cfg m)
    \<and> (\<forall>q. q \<noteq> nextRef m \<longrightarrow> heap m' q = heap m q)
    \<and> nextRef m \<noteq> cfg m
    \<and> heap m' (nextRef m) = srvConfig
    \<and> LsdTokenAddress (Contracts srvConfig) = lsdToken
    \<and> Eth1Endpoint srvConfig = Eth1Endpoint (heap m (cfg m))
    \<and> Eth2Endpoint srvConfig = Eth2Endpoint (heap m (cfg m))
    \<and> GasLimit srvConfig = GasLimit (heap m (cfg m))
    \<and> MaxGasPrice srvConfig = MaxGasPrice (heap m (cfg m))
    \<and> RunForEntrustedLsdNetwork srvConfig = RunForEntrustedLsdNetwork (heap m (cfg m))
    \<and> r = (case NewService w srvConfig of
             Inl e \<Rightarrow> Inl (ErrNewService lsdToken e)
           | Inr srv0 \<Rightarrow>
               (case Start w (srv0\<lparr>srvCfg := nextRef m\<rparr>) of
                  Some e \<Rightarrow> Inl (ErrStartService lsdToken e)
                | None \<Rightarrow> Inr (srv0\<lparr>srvCfg := nextRef m\<rparr>)))
    \<and> (\<forall>srv. r = Inr srv \<longrightarrow>
          srvCfg srv = nextRef m \<and> heap m' (srvCfg srv) = srvConfig
          \<and> srvs m' = srvs_Store lsdToken srv (srvs m)
          \<and> events m' = events m @ [EvNewService (nextRef m), EvStart lsdToken srv])
    \<and> (\<forall>e. r = Inl e \<longrightarrow>
          srvs m' = srvs m \<and> events m' = events m @ [EvNewService (nextRef m)])"
  using assms(2,3) unfolding srvConfig_def
  by (auto simp: newAndStartServiceFor_def Let_def split: sum.splits option.splits)

theorem newAndStartServiceFor_config_witness:
  "snd (newAndStartServiceFor (example_manager_world []) example_manager ''0x03'')
     = Inr (example_service\<lparr>srvCfg := 3\<rparr>)
   \<and> heap (fst (newAndStartServiceFor (example_manager_world []) example_manager ''0x03'')) 0
     = example_config ''''
   \<and> heap (fst (newAndStartServiceFor (example_manager_world []) example_manager ''0x03'')) 3
     = example_config ''0x03''
   \<and> srvs_Load (srvs (fst (newAndStartServiceFor (example_manager_world []) example_manager ''0x03'')))
        ''0x03''
     = Some (example_service\<lparr>srvCfg := 3\<rparr>)"
proof -
  let ?w = "example_manager_world []"
  obtain m' r where run: "newAndStartServiceFor ?w example_manager ''0x03'' = (m', r)"
    by (cases "newAndStartServiceFor ?w example_manager ''0x03''")
  have lt: "cfg example_manager < nextRef example_manager"
    by (simp add: example_manager_def)
  note inst = newAndStartServiceFor_config [OF lt run]
  have r: "r = Inr (example_service\<lparr>srvCfg := 3\<rparr>)"
    using inst by (simp add: example_manager_def example_manager_world_def example_config_def)
  have h: "heap m' 0 = example_config ''''" "heap m' 3 = example_config ''0x03''"
    using inst by (simp_all add: example_manager_def example_config_def)
  have "srvs m' = srvs_Store ''0x03'' (example_service\<lparr>srvCfg := 3\<rparr>) (srvs example_manager)"
    using inst r by blast
  then have l: "srvs_Load (srvs m') ''0x03'' = Some (example_service\<lparr>srvCfg := 3\<rparr>)"
    by (simp add: srvs_Load_def example_manager_def)
  show ?thesis using r h l by (simp add: run)
qed

section \<open>Properties: publishing the Merkle root\<close>

lemma rootAndProofs_events:
  "filter is_SetMerkleRoot (fst (rootAndProofs w l)) = []"
  by (auto simp: rootAndProofs_def buildMerkleTree_def Let_def split: sum.splits prod.splits option.splits)

lemma compute_events:
  "filter is_SetMerkleRoot (fst (setMerkleRoot_compute w s)) = []"
proof (cases "setMerkleRoot_finalList w s")
  case (Panics msg)
  then show ?thesis by (simp add: setMerkleRoot_compute_def)
next
  case (Returns x)
  show ?thesis
  proof (cases x)
    case (Inl r)
    then show ?thesis using Returns by (simp add: setMerkleRoot_compute_def)
  next
    case (Inr p)
    obtain targetEpoch l where p: "p = (targetEpoch, l)" by (cases p)
    obtain evs y where rp: "rootAndProofs w l = (evs, y)" by (cases "rootAndProofs w l")
    have "filter is_SetMerkleRoot evs = []" using rootAndProofs_events [of w l] rp by simp
    then show ?thesis using Returns Inr p rp
      by (auto simp: setMerkleRoot_compute_def Let_def split: sum.splits prod.splits)
  qed
qed






lemma rootAndProofs_Nil: "rootAndProofs w [] = ([], Inr ([], []))"
  by (simp add: rootAndProofs_def)

lemma copy32_Nil: "copy32 [] = replicate 32 0"
  by (simp add: copy32_def)

lemma json_Marshal_Nil: "json_Marshal w [] = ''[]''"
  by (simp add: json_Marshal_def)

text \<open>
  C9. When the final list is empty, \<open>setMerkleRoot\<close> builds no Merkle tree and returns
  no error of its own: it uploads the JSON text \<open>[]\<close> and, with the cid, looks up and
  casts the vote for the proposal whose root is 32 zero bytes. The only errors it can
  return are those of the upload, of \<^verbatim>\<open>HasVoted\<close> and of sending the transaction.
\<close>

theorem setMerkleRoot_empty_list:
  assumes "setMerkleRoot_finalList w s = Returns (Inr (targetEpoch, []))"
  shows "filter is_NewMerkleTree (fst (setMerkleRoot w s)) = []
    \<and> setMerkleRoot w s =
       (let filePath = path_Join w (nodeRewardsFilePath s) (NodeRewardsFileNameAtEpoch w targetEpoch) in
        case UploadFileToWeb3Storage w ''[]'' filePath of
          Inl e \<Rightarrow> ([], Returns (Some e))
        | Inr cid \<Rightarrow>
            let proposalId = VoteMerkleRootProposalId w (int64_of_uint64 targetEpoch)
                               (replicate 32 0) cid;
                evs = [EvUpload ''[]'' filePath, EvHasVoted proposalId (keyPairAddress s)]
            in (case HasVoted w proposalId (keyPairAddress s) of
                  Inl e \<Rightarrow> (evs, Returns (Some (ErrHasVoted e)))
                | Inr hasVoted \<Rightarrow>
                    if hasVoted then (evs, Returns None)
                    else (case LockAndUpdateTxOpts w of
                            Some e \<Rightarrow> (evs, Returns (Some (ErrLockTxOpts e)))
                          | None \<Rightarrow>
                              (case SetMerkleRoot w (int64_of_uint64 targetEpoch) (replicate 32 0) cid of
                                 Inl e \<Rightarrow>
                                   (evs @ [EvLockAndUpdateTxOpts, EvUnlockTxOpts], Returns (Some e))
                               | Inr txHash \<Rightarrow>
                                   (evs @ [EvLockAndUpdateTxOpts,
                                           EvSetMerkleRoot (int64_of_uint64 targetEpoch)
                                             (replicate 32 0) cid,
                                           EvWaitTxOk txHash, EvUnlockTxOpts],
                                    Returns (waitTxOk w txHash))))))"
proof -
  have c: "setMerkleRoot_compute w s =
      (let filePath = path_Join w (nodeRewardsFilePath s) (NodeRewardsFileNameAtEpoch w targetEpoch) in
       case UploadFileToWeb3Storage w ''[]'' filePath of
         Inl e \<Rightarrow> ([], Returns (Inl (Some e)))
       | Inr cid \<Rightarrow> ([EvUpload ''[]'' filePath], Returns (Inr (targetEpoch, replicate 32 0, cid))))"
    using assms
    by (simp add: setMerkleRoot_compute_def rootAndProofs_Nil json_Marshal_Nil copy32_Nil Let_def
        split: sum.splits)
  have run: "setMerkleRoot w s =
       (let filePath = path_Join w (nodeRewardsFilePath s) (NodeRewardsFileNameAtEpoch w targetEpoch) in
        case UploadFileToWeb3Storage w ''[]'' filePath of
          Inl e \<Rightarrow> ([], Returns (Some e))
        | Inr cid \<Rightarrow>
            let proposalId = VoteMerkleRootProposalId w (int64_of_uint64 targetEpoch)
                               (replicate 32 0) cid;
                evs = [EvUpload ''[]'' filePath, EvHasVoted proposalId (keyPairAddress s)]
            in (case HasVoted w proposalId (keyPairAddress s) of
                  Inl e \<Rightarrow> (evs, Returns (Some (ErrHasVoted e)))
                | Inr hasVoted \<Rightarrow>
                    if hasVoted then (evs, Returns None)
                    else (case LockAndUpdateTxOpts w of
                            Some e \<Rightarrow> (evs, Returns (Some (ErrLockTxOpts e)))
                          | None \<Rightarrow>
                              (case SetMerkleRoot w (int64_of_uint64 targetEpoch) (replicate 32 0) cid of
                                 Inl e \<Rightarrow>
                                   (evs @ [EvLockAndUpdateTxOpts, EvUnlockTxOpts], Returns (Some e))
                               | Inr txHash \<Rightarrow>
                                   (evs @ [EvLockAndUpdateTxOpts,
                                           EvSetMerkleRoot (int64_of_uint64 targetEpoch)
                                             (replicate 32 0) cid,
                                           EvWaitTxOk txHash, EvUnlockTxOpts],
                                    Returns (waitTxOk w txHash))))))"
    unfolding setMerkleRoot_def c
    by (simp add: Let_def sendSetMerkleRootTx_def split: sum.splits option.splits)
  have "filter is_NewMerkleTree (fst (setMerkleRoot w s)) = []"
    unfolding run by (simp add: Let_def split: sum.splits option.splits)
  then show ?thesis using run by simp
qed

theorem setMerkleRoot_empty_list_witness:
  "setMerkleRoot (example_world [] False) example_service
     = ([EvUpload ''[]'' ''rewards/node-rewards.json'',
         EvHasVoted (VoteMerkleRootProposalId (example_world [] False) 225 (replicate 32 0) ''cid'') 7,
         EvLockAndUpdateTxOpts,
         EvSetMerkleRoot 225 (replicate 32 0) ''cid'',
         EvWaitTxOk [1], EvUnlockTxOpts], Returns None)"
proof -
  have "setMerkleRoot_finalList (example_world [] False) example_service = Returns (Inr (225, []))"
    by code_simp
  from setMerkleRoot_empty_list [OF this] show ?thesis
    by (simp add: example_world_def example_service_def int64_of_uint64_def)
qed

lemma proofLoop_empty_proof:
  assumes "GetProof w tree
             (GetNodeHash w (int64_of_uint32 (Index nodeReward)) (HexToAddress w (Address nodeReward))
                (decimal_BigInt (TotalRewardAmount nodeReward))
                (decimal_BigInt (TotalExitDepositAmount nodeReward))) = Inr []"
  shows "proofLoop w tree (nodeReward # rest) = Inl None"
  using assms by (simp add: errors_Wrap_def)

text \<open>
  C5. A world with a single node to reward: the tree has one leaf, the proof of that
  leaf has no sibling hash, and \<^verbatim>\<open>errors.Wrap\<close> of the nil error at line 323 is nil.
  \<open>setMerkleRoot\<close> returns nil, having uploaded nothing and cast no vote.
\<close>

theorem setMerkleRoot_empty_proof_returns_nil:
  "setMerkleRoot_finalList (example_world [(10, node_a)] False) example_service
     = Returns (Inr (225, [\<lparr>Address = ''0x0a'', TotalRewardAmount = 10, TotalExitDepositAmount = 0,
                            Index = 0, Proof = ''''\<rparr>]))
   \<and> GetProof (example_world [(10, node_a)] False)
       (NewMerkleTree (example_world [(10, node_a)] False)
          [GetNodeHash (example_world [(10, node_a)] False) 0 10 10 0])
       (GetNodeHash (example_world [(10, node_a)] False) 0 10 10 0) = Inr []
   \<and> setMerkleRoot (example_world [(10, node_a)] False) example_service
     = ([EvNewMerkleTree [GetNodeHash (example_world [(10, node_a)] False) 0 10 10 0]], Returns None)"
  by code_simp

text \<open>The same for every world: an empty proof for the first node ends the run with nil.\<close>

lemma setMerkleRoot_empty_proof:
  assumes fl: "setMerkleRoot_finalList w s = Returns (Inr (targetEpoch, nodeReward # rest))"
    and root: "GetRootHash w (NewMerkleTree w
                 (map (\<lambda>data. GetNodeHash w (int64_of_uint32 (Index data))
                                  (HexToAddress w (Address data))
                                  (decimal_BigInt (TotalRewardAmount data))
                                  (decimal_BigInt (TotalExitDepositAmount data)))
                    (nodeReward # rest))) = Inr rootHash"
    and empty: "GetProof w (NewMerkleTree w
                 (map (\<lambda>data. GetNodeHash w (int64_of_uint32 (Index data))
                                  (HexToAddress w (Address data))
                                  (decimal_BigInt (TotalRewardAmount data))
                                  (decimal_BigInt (TotalExitDepositAmount data)))
                    (nodeReward # rest)))
             (GetNodeHash w (int64_of_uint32 (Index nodeReward)) (HexToAddress w (Address nodeReward))
                (decimal_BigInt (TotalRewardAmount nodeReward))
                (decimal_BigInt (TotalExitDepositAmount nodeReward))) = Inr []"
  shows "snd (setMerkleRoot w s) = Returns None \<and> sent_txs (setMerkleRoot w s) = 0"
proof -
  have "snd (rootAndProofs w (nodeReward # rest)) = Inl None"
    using root proofLoop_empty_proof [OF empty, of rest]
    by (simp add: rootAndProofs_def buildMerkleTree_def Let_def)
  then have "snd (setMerkleRoot_compute w s) = Returns (Inl None)"
    using fl by (cases "rootAndProofs w (nodeReward # rest)") (simp add: setMerkleRoot_compute_def)
  then show ?thesis
    using compute_events [of w s]
    by (cases "setMerkleRoot_compute w s") (simp add: setMerkleRoot_def sent_txs_def)
qed

text \<open>
  With \<^verbatim>\<open>merkleRootDuEpochs\<close> zero and the beacon head at hand, the division of line
  385 panics and \<open>setMerkleRoot\<close> does not return.
\<close>

lemma setMerkleRoot_divide_by_zero:
  assumes "Eth2BeaconHead w = Inr finalizedEpoch" and "merkleRootDuEpochs s = 0"
  shows "setMerkleRoot w s = ([], Panics ''integer divide by zero'')"
  using assms
  by (simp add: setMerkleRoot_def setMerkleRoot_compute_def setMerkleRoot_finalList_def
      checkStateForSetMerkleRoot_def)

end
